theory Spec2Isabelle
  imports Complex_Main
begin

section \<open>The bcolz backend of blaze: \<^verbatim>\<open>blaze/compute/bcolz.py\<close>\<close>

text \<open>
  The module registers, by multiple dispatch, how an expression is computed on a bcolz
  \<^verbatim>\<open>carray\<close> or \<^verbatim>\<open>ctable\<close>. A one-dimensional source is modelled by the list of its
  elements. Every exception the module can raise or let through is a value of \<open>error\<close>;
  a computation that can raise returns \<open>error + 'a\<close> with \<open>Inl\<close> for the exception.
\<close>

datatype error =
    MDNotImplementedError
  | NotImplementedError
  | NameError
  | AttributeError
  | UnboundLocalError
  | IndexError
  | KeyError
  | TypeError
  | ValueError
  | ZeroDivisionError
  | OtherError string

subsection \<open>Slicing and the chunk iterator\<close>

text \<open>
  \<^verbatim>\<open>b[start:stop]\<close> with non-negative bounds: Python clamps both bounds to the length,
  so a slice that reaches past the end is shorter and one that starts there is empty.
  \<open>slice_indices\<close> is what \<^verbatim>\<open>slice(start, stop).indices(n)\<close> returns.
\<close>

definition slice_indices :: "nat \<Rightarrow> nat \<Rightarrow> nat \<Rightarrow> nat \<times> nat" where
  "slice_indices n start stop = (min start n, min stop n)"

definition getslice :: "'a list \<Rightarrow> nat \<Rightarrow> nat \<Rightarrow> 'a list" where
  "getslice b start stop = take (stop - start) (drop start b)"

text \<open>
  \<^verbatim>\<open>
  def chunks(b, chunksize=2**15):
      start = 0
      n = b.len
      while start < n:
          yield b[start:start + chunksize]
          start += chunksize
  \<close>
  The generator is modelled by the list of everything it yields. With \<open>chunksize = 0\<close>
  on a non-empty source \<open>start\<close> never moves and the generator never ends: the model
  has no list for it (\<open>None\<close>). \<open>chunks_from\<close> is the loop entered at \<open>start\<close>.
\<close>

partial_function (option) chunks_from :: "'a list \<Rightarrow> nat \<Rightarrow> nat \<Rightarrow> 'a list list option" where
  "chunks_from b chunksize start =
     (if start < length b
      then Option.bind (chunks_from b chunksize (start + chunksize))
             (\<lambda>rest. Some (getslice b start (start + chunksize) # rest))
      else Some [])"

definition chunks :: "'a list \<Rightarrow> nat \<Rightarrow> 'a list list option" where
  "chunks b chunksize = chunks_from b chunksize 0"

text \<open>
  \<^verbatim>\<open>
  def get_chunk(b, i, chunksize=2**15):
      start = chunksize * i
      stop = chunksize * (i + 1)
      return b[start:stop]
  \<close>
\<close>

definition get_chunk :: "'a list \<Rightarrow> nat \<Rightarrow> nat \<Rightarrow> 'a list" where
  "get_chunk b i chunksize =
     (let start = chunksize * i; stop = chunksize * (i + 1) in getslice b start stop)"

text \<open>The index range that chunk \<open>i\<close> of a source of length \<open>n\<close> covers.\<close>

definition chunk_range :: "nat \<Rightarrow> nat \<Rightarrow> nat \<Rightarrow> nat \<times> nat" where
  "chunk_range n chunksize i = slice_indices n (chunksize * i) (chunksize * (i + 1))"

definition default_chunksize :: nat where
  "default_chunksize = 2 ^ 15"

subsection \<open>Numbers, results and the bcolz array\<close>

text \<open>
  A number of numpy or Python (an \<^verbatim>\<open>int64\<close>, a \<^verbatim>\<open>float64\<close>, a Python \<^verbatim>\<open>float\<close>): a finite value
  is the real number it stands for, and the special values of floating point are kept.
\<close>

datatype npfloat = Fin real | PosInf | NegInf | NaN

text \<open>
  Machine arithmetic. The operations the reductions perform are not those of the real
  numbers: a \<^verbatim>\<open>float64\<close> operation rounds its result and may overflow, an \<^verbatim>\<open>int64\<close>
  operation wraps around, and the sum of an array adds its elements in an order of numpy's
  or bcolz's choosing. So each operation is taken as given, one function for each
  operation of the module, and nothing is assumed of them:
  \<^item> \<open>carray_sum_op\<close>: \<^verbatim>\<open>ba.sum()\<close> of a carray that is not empty, in the array's type;
  \<^item> \<open>array_sum\<close>: \<^verbatim>\<open>.sum()\<close> of a numpy array, in the array's type;
  \<^item> \<open>array_mul\<close>: the product of two elements in \<^verbatim>\<open>chunk * chunk\<close>, in the array's type;
  \<^item> \<open>scalar_add\<close>: the \<^verbatim>\<open>+\<close> of the builtin \<^verbatim>\<open>sum\<close> on numpy scalars;
  \<^item> \<open>to_float\<close>: \<^verbatim>\<open>float(x)\<close> of a numpy scalar;
  \<^item> \<open>float_mul\<close>, \<open>float_sub\<close>: \<^verbatim>\<open>*\<close> and \<^verbatim>\<open>-\<close> in floating point;
  \<^item> \<open>float_div\<close>: \<^verbatim>\<open>/\<close> in floating point by an integer that is not zero;
  \<^item> \<open>float_sqrt\<close>: the square root \<^verbatim>\<open>math.sqrt\<close> computes for a finite value that is
    not negative.
\<close>

record arith =
  carray_sum_op :: "npfloat list \<Rightarrow> npfloat"
  array_sum :: "npfloat list \<Rightarrow> npfloat"
  array_mul :: "npfloat \<Rightarrow> npfloat \<Rightarrow> npfloat"
  scalar_add :: "npfloat \<Rightarrow> npfloat \<Rightarrow> npfloat"
  to_float :: "npfloat \<Rightarrow> npfloat"
  float_mul :: "npfloat \<Rightarrow> npfloat \<Rightarrow> npfloat"
  float_sub :: "npfloat \<Rightarrow> npfloat \<Rightarrow> npfloat"
  float_div :: "npfloat \<Rightarrow> int \<Rightarrow> npfloat"
  float_sqrt :: "real \<Rightarrow> real"

text \<open>
  Two arithmetics to compute with. In \<open>exact_arith\<close> no operation rounds: it is what the
  machine does as long as every result can be represented. In \<open>int64_arith\<close> the array is
  of type \<^verbatim>\<open>int64\<close>: products and sums of elements wrap around modulo \<open>2\<^sup>6\<^sup>4\<close>, and the
  floating-point operations are exact. An operation on a special value gives \<^verbatim>\<open>nan\<close> in
  both, which is all that is needed of them.
\<close>

fun lift1 :: "(real \<Rightarrow> real) \<Rightarrow> npfloat \<Rightarrow> npfloat" where
  "lift1 f (Fin a) = Fin (f a)"
| "lift1 f _ = NaN"

fun lift2 :: "(real \<Rightarrow> real \<Rightarrow> real) \<Rightarrow> npfloat \<Rightarrow> npfloat \<Rightarrow> npfloat" where
  "lift2 f (Fin a) (Fin b) = Fin (f a b)"
| "lift2 f _ _ = NaN"

definition exact_sum :: "npfloat list \<Rightarrow> npfloat" where
  "exact_sum xs = foldl (lift2 (+)) (Fin 0) xs"

definition exact_arith :: arith where
  "exact_arith =
     \<lparr>carray_sum_op = exact_sum,
      array_sum = exact_sum,
      array_mul = lift2 (*),
      scalar_add = lift2 (+),
      to_float = (\<lambda>x. x),
      float_mul = lift2 (*),
      float_sub = lift2 (-),
      float_div = (\<lambda>x d. lift1 (\<lambda>a. a / of_int d) x),
      float_sqrt = sqrt\<rparr>"

definition wrap64 :: "real \<Rightarrow> real" where
  "wrap64 v = of_int ((\<lfloor>v\<rfloor> + 2 ^ 63) mod 2 ^ 64 - 2 ^ 63)"

definition int64_arith :: arith where
  "int64_arith =
     exact_arith
       \<lparr>carray_sum_op := (\<lambda>xs. lift1 wrap64 (exact_sum xs)),
        array_sum := (\<lambda>xs. lift1 wrap64 (exact_sum xs)),
        array_mul := (\<lambda>x y. lift1 wrap64 (lift2 (*) x y)),
        scalar_add := (\<lambda>x y. lift1 wrap64 (lift2 (+) x y))\<rparr>"

text \<open>
  What a reduction returns: the bare scalar, or \<^verbatim>\<open>np.array([result])\<close> when the expression
  asks for \<^verbatim>\<open>keepdims\<close>.
\<close>

datatype 'a result = Scalar 'a | Array1 'a

text \<open>
  The reduction expressions carry \<^verbatim>\<open>keepdims\<close>; \<^verbatim>\<open>var\<close> and \<^verbatim>\<open>std\<close> carry \<^verbatim>\<open>unbiased\<close> too.
\<close>

record reduction =
  keepdims :: bool

record var_expr = reduction +
  unbiased :: bool

text \<open>
  \<^verbatim>\<open>
      if expr.keepdims:
          result = np.array([result])
      return result
  \<close>
\<close>

definition keepdims_wrap :: "'e reduction_scheme \<Rightarrow> 'a \<Rightarrow> 'a result" where
  "keepdims_wrap expr result = (if keepdims expr then Array1 result else Scalar result)"

text \<open>
  A \<^verbatim>\<open>bcolz.carray\<close> of numbers is the list of its elements. \<^verbatim>\<open>ba.len\<close> is a Python
  integer. \<^verbatim>\<open>ba.sum()\<close> starts from a numpy zero of the array's type and adds the sums of
  the array's blocks to it: for an empty array it is that zero, and otherwise it is the
  sum as the machine computes it.
\<close>

definition carray_len :: "'a list \<Rightarrow> nat" where
  "carray_len ba = length ba"

definition carray_sum :: "arith \<Rightarrow> npfloat list \<Rightarrow> npfloat" where
  "carray_sum A ba = (if ba = [] then Fin 0 else carray_sum_op A ba)"

text \<open>
  The two divisions. The module imports \<^verbatim>\<open>division\<close> from \<^verbatim>\<open>__future__\<close>, so \<^verbatim>\<open>/\<close> is true
  division. A Python \<^verbatim>\<open>float\<close> divided by zero raises \<^verbatim>\<open>ZeroDivisionError\<close>. A numpy scalar
  divided by zero raises nothing: it gives a warning and returns \<^verbatim>\<open>nan\<close> for \<open>0 / 0\<close> and
  for \<^verbatim>\<open>nan\<close>, and an infinity otherwise.
\<close>

definition py_truediv :: "arith \<Rightarrow> npfloat \<Rightarrow> int \<Rightarrow> error + npfloat" where
  "py_truediv A x d = (if d = 0 then Inl ZeroDivisionError else Inr (float_div A x d))"

definition np_truediv :: "arith \<Rightarrow> npfloat \<Rightarrow> int \<Rightarrow> npfloat" where
  "np_truediv A x d =
     (if d = 0
      then (case x of
              Fin v \<Rightarrow> if v = 0 then NaN else if 0 < v then PosInf else NegInf
            | PosInf \<Rightarrow> PosInf
            | NegInf \<Rightarrow> NegInf
            | NaN \<Rightarrow> NaN)
      else float_div A x d)"

text \<open>
  \<^verbatim>\<open>math.sqrt\<close>: a negative argument raises \<^verbatim>\<open>ValueError\<close> (``math domain error''), \<^verbatim>\<open>nan\<close>
  goes through.
\<close>

definition math_sqrt :: "arith \<Rightarrow> npfloat \<Rightarrow> error + npfloat" where
  "math_sqrt A x =
     (case x of
        Fin v \<Rightarrow> if v < 0 then Inl ValueError else Inr (Fin (float_sqrt A v))
      | PosInf \<Rightarrow> Inr PosInf
      | NegInf \<Rightarrow> Inl ValueError
      | NaN \<Rightarrow> Inr NaN)"

text \<open>
  \<^verbatim>\<open>chunk * chunk\<close> and \<^verbatim>\<open>.sum()\<close> of a numpy array, and Python's builtin \<^verbatim>\<open>sum\<close>, which starts
  from the integer \<open>0\<close> and adds the items one after the other.
\<close>

definition np_mul :: "arith \<Rightarrow> npfloat list \<Rightarrow> npfloat list \<Rightarrow> npfloat list" where
  "np_mul A xs ys = map2 (array_mul A) xs ys"

definition np_sum :: "arith \<Rightarrow> npfloat list \<Rightarrow> npfloat" where
  "np_sum A xs = array_sum A xs"

definition builtins_sum :: "arith \<Rightarrow> npfloat list \<Rightarrow> npfloat" where
  "builtins_sum A xs = foldl (scalar_add A) (Fin 0) xs"

subsection \<open>The reductions on a carray\<close>

text \<open>
  \<^verbatim>\<open>
  @dispatch(sum, (bcolz.carray, bcolz.ctable))
  def compute_up(expr, data, **kwargs):
      result = data.sum()
      if expr.keepdims:
          result = np.array([result])
      return result
  \<close>
\<close>

definition compute_up_sum :: "arith \<Rightarrow> 'e reduction_scheme \<Rightarrow> npfloat list \<Rightarrow> npfloat result" where
  "compute_up_sum A expr data = (let result = carray_sum A data in keepdims_wrap expr result)"

text \<open>
  \<^verbatim>\<open>
  @dispatch(count, (bcolz.ctable, bcolz.carray))
  def compute_up(expr, data, **kwargs):
      result = len(data)
      ...
  \<close>
\<close>

definition compute_up_count :: "'e reduction_scheme \<Rightarrow> 'a list \<Rightarrow> nat result" where
  "compute_up_count expr data = (let result = length data in keepdims_wrap expr result)"

text \<open>
  \<^verbatim>\<open>
  @dispatch(mean, bcolz.carray)
  def compute_up(expr, ba, **kwargs):
      result = ba.sum() / ba.len
      ...
  \<close>
  The dividend is the numpy scalar that \<^verbatim>\<open>ba.sum()\<close> returns, so this is numpy's division.
\<close>

definition compute_up_mean :: "arith \<Rightarrow> 'e reduction_scheme \<Rightarrow> npfloat list \<Rightarrow> npfloat result" where
  "compute_up_mean A expr ba =
     (let result = np_truediv A (carray_sum A ba) (int (carray_len ba))
      in keepdims_wrap expr result)"

text \<open>
  \<^verbatim>\<open>
  @dispatch(var, bcolz.carray)
  def compute_up(expr, ba, chunksize=2**20, **kwargs):
      n = ba.len
      E_X_2 = builtins.sum((chunk * chunk).sum() for chunk in chunks(ba))
      E_X = float(ba.sum())
      result = (E_X_2 - (E_X * E_X) / n) / (n - expr.unbiased)
      ...
  \<close>
  The \<^verbatim>\<open>chunksize\<close> argument is not used: \<^verbatim>\<open>chunks(ba)\<close> runs with its own default.
  \<^verbatim>\<open>E_X\<close> is a Python float, so \<^verbatim>\<open>(E_X * E_X) / n\<close> is Python's division and raises for
  \<open>n = 0\<close>. Past it the array is not empty, \<^verbatim>\<open>E_X_2\<close> is a numpy scalar (the builtin sum of
  at least one numpy scalar), and so are the difference and the dividend of the outer
  division, which is numpy's. \<open>None\<close> stands for a chunk iterator that never ends.
\<close>

definition compute_up_var ::
  "arith \<Rightarrow> 'e var_expr_scheme \<Rightarrow> npfloat list \<Rightarrow> nat \<Rightarrow> (error + npfloat result) option" where
  "compute_up_var A expr ba chunksize =
     (let n = carray_len ba in
      case chunks ba default_chunksize of
        None \<Rightarrow> None
      | Some cs \<Rightarrow>
          let E_X_2 = builtins_sum A (map (\<lambda>chunk. np_sum A (np_mul A chunk chunk)) cs);
              E_X = to_float A (carray_sum A ba)
          in Some (case py_truediv A (float_mul A E_X E_X) (int n) of
                Inl e \<Rightarrow> Inl e
              | Inr q \<Rightarrow>
                  let result = np_truediv A (float_sub A E_X_2 q) (int n - of_bool (unbiased expr))
                  in Inr (keepdims_wrap expr result)))"

text \<open>
  \<^verbatim>\<open>
  @dispatch(std, bcolz.carray)
  def compute_up(expr, ba, **kwargs):
      result = compute_up(expr._child.var(unbiased=expr.unbiased), ba, **kwargs)
      result = math.sqrt(result)
      if expr.keepdims:
          result = np.array([result])
      return result
  \<close>
  \<open>child_var\<close> is the \<^verbatim>\<open>var\<close> expression the first line builds: \<^verbatim>\<open>keepdims\<close> is left at its
  default, false. \<open>std_of_var\<close> is the rest of the body, from the variance's value on;
  \<^verbatim>\<open>math.sqrt\<close> takes a scalar or an array of one element.
\<close>

definition child_var :: "'e var_expr_scheme \<Rightarrow> var_expr" where
  "child_var expr = \<lparr>keepdims = False, unbiased = unbiased expr\<rparr>"

fun result_value :: "'a result \<Rightarrow> 'a" where
  "result_value (Scalar x) = x"
| "result_value (Array1 x) = x"

definition std_of_var ::
  "arith \<Rightarrow> 'e var_expr_scheme \<Rightarrow> npfloat result \<Rightarrow> error + npfloat result" where
  "std_of_var A expr result =
     (case math_sqrt A (result_value result) of
        Inl e \<Rightarrow> Inl e
      | Inr result' \<Rightarrow> Inr (keepdims_wrap expr result'))"

definition compute_up_std ::
  "arith \<Rightarrow> 'e var_expr_scheme \<Rightarrow> npfloat list \<Rightarrow> nat \<Rightarrow> (error + npfloat result) option" where
  "compute_up_std A expr ba chunksize =
     (case compute_up_var A (child_var expr) ba chunksize of
        None \<Rightarrow> None
      | Some (Inl e) \<Rightarrow> Some (Inl e)
      | Some (Inr result) \<Rightarrow> Some (std_of_var A expr result))"

subsection \<open>The dispatch table of \<^verbatim>\<open>compute_up\<close>\<close>

text \<open>
  The expression classes and the two bcolz classes the module names in its \<^verbatim>\<open>@dispatch\<close>
  decorators.
\<close>

datatype expr_class =
    Expr_class | Symbol_class | Selection_class | Head_class | Field_class | Projection_class
  | ReLabel_class | Label_class | ElemWise_class | Arithmetic_class | Broadcast_class
  | Distinct_class | By_class | Like_class | Slice_class | Reduction_class
  | sum_class | count_class | mean_class | var_class | std_class | nunique_class
  | nelements_class

datatype bcolz_class = carray | ctable

text \<open>
  Every \<^verbatim>\<open>@dispatch(...)\<close> \<^verbatim>\<open>def compute_up\<close> of the module, in source order: the expression
  classes and the data classes of the decorator (a tuple stands for each of its members),
  and the line of the \<^verbatim>\<open>def\<close>, which names the definition.
\<close>

definition compute_up_defs :: "(expr_class list \<times> bcolz_class list \<times> nat) list" where
  "compute_up_defs =
    [([Selection_class], [ctable], 62),
     ([Selection_class], [ctable], 74),
     ([Head_class], [carray, ctable], 81),
     ([Field_class], [ctable], 86),
     ([Projection_class], [ctable], 91),
     ([sum_class], [carray, ctable], 96),
     ([count_class], [ctable, carray], 104),
     ([mean_class], [carray], 112),
     ([var_class], [carray], 120),
     ([std_class], [carray], 131),
     ([ReLabel_class, Label_class], [carray, ctable], 140),
     ([Arithmetic_class, Broadcast_class, ElemWise_class, Distinct_class, By_class,
       nunique_class, Like_class], [carray, ctable], 146),
     ([nunique_class], [carray], 153),
     ([Reduction_class], [carray, ctable], 161),
     ([Slice_class], [carray, ctable], 171),
     ([nelements_class], [carray, ctable], 176)]"

text \<open>
  The dispatcher keeps its functions in a dictionary keyed by signature, and registering
  is an assignment to it: a definition registered later for a signature replaces the
  earlier one. The table below is that dictionary once the module is loaded. It answers
  for the signatures registered as such; a class that reaches a definition through a
  superclass is outside it.
\<close>

definition dispatcher_add ::
  "(expr_class \<times> bcolz_class \<rightharpoonup> nat) \<Rightarrow> expr_class list \<times> bcolz_class list \<times> nat
     \<Rightarrow> (expr_class \<times> bcolz_class \<rightharpoonup> nat)" where
  "dispatcher_add funcs d =
     (case d of (classes, datas, line) \<Rightarrow>
        foldl (\<lambda>f signature. f(signature \<mapsto> line)) funcs (List.product classes datas))"

definition compute_up_funcs :: "expr_class \<times> bcolz_class \<rightharpoonup> nat" where
  "compute_up_funcs = foldl dispatcher_add Map.empty compute_up_defs"

subsection \<open>Deciding between memory and streaming\<close>

text \<open>
  A bcolz source as the decisions see it: its uncompressed size in bytes and its rows.
  What the module hands on to the other backends is one of three containers: the array
  \<^verbatim>\<open>data[:]\<close> in memory, the iterator \<^verbatim>\<open>into(Iterator, data)\<close>, or \<^verbatim>\<open>ChunkIndexable(data)\<close>.
\<close>

record 'a bcolz =
  nbytes :: nat
  rows :: "'a list"

datatype 'a container =
    InMemory "'a list"
  | Iterator "'a list"
  | ChunkIndexable "'a bcolz"

text \<open>
  \<^verbatim>\<open>available_memory()\<close> reads the machine's free memory, which changes while a query runs.
  The state is the number of readings taken so far, and \<open>mem t\<close> is what reading \<open>t\<close>
  returns. A computation takes the state and returns its outcome with the new state.
  \<open>cu\<close> stands for \<^verbatim>\<open>compute_up\<close> as the other backends define it on the three containers;
  it may read the memory too.
\<close>

definition available_memory :: "(nat \<Rightarrow> nat) \<Rightarrow> nat \<Rightarrow> nat \<times> nat" where
  "available_memory mem t = (mem t, Suc t)"

type_synonym ('e, 'a, 'r) backend = "'e \<Rightarrow> 'a container \<Rightarrow> nat \<Rightarrow> (error + 'r) \<times> nat"



text \<open>
  \<^verbatim>\<open>
  @dispatch(Selection, bcolz.ctable)
  def compute_up(expr, data, **kwargs):
      if data.nbytes < available_memory() / 4:
          return compute_up(expr, data[:], **kwargs)
      return compute_up(expr, into(Iterator, data), **kwargs)
  \<close>
\<close>

definition compute_up_Selection_74 ::
  "(nat \<Rightarrow> nat) \<Rightarrow> ('e, 'a, 'r) backend \<Rightarrow> 'e \<Rightarrow> 'a bcolz \<Rightarrow> nat \<Rightarrow> (error + 'r) \<times> nat" where
  "compute_up_Selection_74 mem cu expr data t =
     (case available_memory mem t of (avail, t') \<Rightarrow>
        if real (nbytes data) < real avail / 4 then cu expr (InMemory (rows data)) t'
        else cu expr (Iterator (rows data)) t')"

text \<open>
  \<^verbatim>\<open>
  @dispatch((ReLabel, Label), (bcolz.carray, bcolz.ctable))
  def compute_up(expr, b, **kwargs):
      raise NotImplementedError()
  \<close>
\<close>

definition compute_up_ReLabel_140 :: "'e \<Rightarrow> 'a bcolz \<Rightarrow> error + 'r" where
  "compute_up_ReLabel_140 expr b = Inl NotImplementedError"

text \<open>
  \<^verbatim>\<open>
  @dispatch((Arithmetic, Broadcast, ElemWise, Distinct, By, nunique, Like),
            (bcolz.carray, bcolz.ctable))
  def compute_up(expr, data, **kwargs):
      if data.nbytes < available_memory() / 4:
          return compute_up(expr, data[:], **kwargs)
      return compute_up(expr, into(Iterator, data), **kwargs)
  \<close>
\<close>

definition compute_up_ElemWise_146 ::
  "(nat \<Rightarrow> nat) \<Rightarrow> ('e, 'a, 'r) backend \<Rightarrow> 'e \<Rightarrow> 'a bcolz \<Rightarrow> nat \<Rightarrow> (error + 'r) \<times> nat" where
  "compute_up_ElemWise_146 mem cu expr data t =
     (case available_memory mem t of (avail, t') \<Rightarrow>
        if real (nbytes data) < real avail / 4 then cu expr (InMemory (rows data)) t'
        else cu expr (Iterator (rows data)) t')"

text \<open>
  \<^verbatim>\<open>
  @dispatch(nunique, bcolz.carray)
  def compute_up(expr, data, **kwargs):
      result = len(set(data))
      ...
  \<close>
  Iterating over the array gives a new numpy scalar for each element, and \<^verbatim>\<open>nan\<close> is not
  equal to \<^verbatim>\<open>nan\<close>: every \<^verbatim>\<open>nan\<close> of the array is an element of the set of its own.
\<close>

definition compute_up_nunique_153 :: "'e reduction_scheme \<Rightarrow> npfloat list \<Rightarrow> nat result" where
  "compute_up_nunique_153 expr data =
     (let result = length (remdups (filter (\<lambda>x. x \<noteq> NaN) data))
                   + length (filter (\<lambda>x. x = NaN) data)
      in keepdims_wrap expr result)"

text \<open>
  \<^verbatim>\<open>
  @dispatch(Reduction, (bcolz.carray, bcolz.ctable))
  def compute_up(expr, data, **kwargs):
      if data.nbytes < available_memory() / 4:
          result = compute_up(expr, data[:], **kwargs)
      result = compute_up(expr, ChunkIndexable(data), **kwargs)
      if expr.keepdims:
          result = np.array([result])
      return result
  \<close>
  The first branch does not return: when the data fits, the reduction is computed in
  memory, and then computed again over the chunks, whose result is the one kept.
  \<open>keep_outcome\<close> is the end of the body, applied to what the chunked computation gives.
\<close>

definition keep_outcome ::
  "'e reduction_scheme \<Rightarrow> (error + 'r) \<times> nat \<Rightarrow> (error + 'r result) \<times> nat" where
  "keep_outcome expr out =
     (case out of
        (Inl e, t) \<Rightarrow> (Inl e, t)
      | (Inr result, t) \<Rightarrow> (Inr (keepdims_wrap expr result), t))"

definition compute_up_Reduction_161 ::
  "(nat \<Rightarrow> nat) \<Rightarrow> ('e reduction_scheme, 'a, 'r) backend \<Rightarrow> 'e reduction_scheme \<Rightarrow> 'a bcolz
     \<Rightarrow> nat \<Rightarrow> (error + 'r result) \<times> nat" where
  "compute_up_Reduction_161 mem cu expr data t =
     (case available_memory mem t of (avail, t') \<Rightarrow>
        if real (nbytes data) < real avail / 4
        then (case cu expr (InMemory (rows data)) t' of
                (Inl e, t'') \<Rightarrow> (Inl e, t'')
              | (Inr result, t'') \<Rightarrow> keep_outcome expr (cu expr (ChunkIndexable data) t''))
        else keep_outcome expr (cu expr (ChunkIndexable data) t'))"

subsection \<open>Expressions\<close>

text \<open>
  Modelled from the spec: the expression tree, whose classes (\<^verbatim>\<open>blaze.expr\<close>) are not among
  the sources. An expression is a node with an operation kind over its child, down to the
  one symbol that stands for the data (the spec's single leaf). The kinds are the spec's:
  the leaf, the elementwise map, the filter by a predicate, the first-\<open>n\<close> slice, distinct,
  and the reductions sum, count and distinct-count, each with its \<^verbatim>\<open>keepdims\<close> flag. A
  symbol's schema is left out.
\<close>

datatype 'a expr =
    Symbol string
  | ElemWise "'a \<Rightarrow> 'a" "'a expr"
  | Selection "'a \<Rightarrow> bool" "'a expr"
  | Head nat "'a expr"
  | Distinct "'a expr"
  | sum_expr bool "'a expr"
  | count_expr bool "'a expr"
  | nunique_expr bool "'a expr"

text \<open>Modelled from the spec: the class of a node, for \<^verbatim>\<open>isinstance\<close>.\<close>

fun class_of :: "'a expr \<Rightarrow> expr_class" where
  "class_of (Symbol _) = Symbol_class"
| "class_of (ElemWise _ _) = ElemWise_class"
| "class_of (Selection _ _) = Selection_class"
| "class_of (Head _ _) = Head_class"
| "class_of (Distinct _) = Distinct_class"
| "class_of (sum_expr _ _) = sum_class"
| "class_of (count_expr _ _) = count_class"
| "class_of (nunique_expr _ _) = nunique_class"

text \<open>
  Modelled from the spec: \<^verbatim>\<open>isinstance(e, classes)\<close> for a tuple of classes. None of the
  classes of the model is a subclass of another one of them.
\<close>

definition isinstance :: "'a expr \<Rightarrow> expr_class list \<Rightarrow> bool" where
  "isinstance e classes = (class_of e \<in> set classes)"

text \<open>Modelled from the spec: \<^verbatim>\<open>expr._leaves()\<close>, the nodes without inputs, left to right.\<close>

fun leaves :: "'a expr \<Rightarrow> 'a expr list" where
  "leaves (Symbol n) = [Symbol n]"
| "leaves (ElemWise _ e) = leaves e"
| "leaves (Selection _ e) = leaves e"
| "leaves (Head _ e) = leaves e"
| "leaves (Distinct e) = leaves e"
| "leaves (sum_expr _ e) = leaves e"
| "leaves (count_expr _ e) = leaves e"
| "leaves (nunique_expr _ e) = leaves e"

text \<open>
  Modelled from the spec: \<^verbatim>\<open>path(a, b)\<close>, the nodes on the way from \<open>a\<close> down to \<open>b\<close>, both
  included. It is asked for a leaf \<open>b\<close> of \<open>a\<close> only; the model stops at a symbol.
\<close>

fun path :: "'a expr \<Rightarrow> 'a expr \<Rightarrow> 'a expr list" where
  "path (Symbol n) b = [Symbol n]"
| "path (ElemWise f e) b = (if ElemWise f e = b then [b] else ElemWise f e # path e b)"
| "path (Selection p e) b = (if Selection p e = b then [b] else Selection p e # path e b)"
| "path (Head n e) b = (if Head n e = b then [b] else Head n e # path e b)"
| "path (Distinct e) b = (if Distinct e = b then [b] else Distinct e # path e b)"
| "path (sum_expr k e) b = (if sum_expr k e = b then [b] else sum_expr k e # path e b)"
| "path (count_expr k e) b = (if count_expr k e = b then [b] else count_expr k e # path e b)"
| "path (nunique_expr k e) b =
     (if nunique_expr k e = b then [b] else nunique_expr k e # path e b)"

subsection \<open>The direct computation of a cheap \<^verbatim>\<open>Head\<close>\<close>

text \<open>
  \<^verbatim>\<open>
  Cheap = (Head, ElemWise, Selection, Distinct, Symbol)

  @dispatch(Head, (bcolz.ctable, bcolz.carray))
  def compute_down(expr, data, **kwargs):
      leaf = expr._leaves()[0]
      if all(isinstance(e, Cheap) for e in path(expr, leaf)):
          return compute(expr, {leaf: into(Iterator, data)}, **kwargs)
      else:
          raise MDNotImplementedError()
  \<close>
  \<open>compute\<close> is the generic evaluator, given an expression and the bindings of its symbols.
\<close>

definition Cheap :: "expr_class list" where
  "Cheap = [Head_class, ElemWise_class, Selection_class, Distinct_class, Symbol_class]"

definition compute_down_Head ::
  "('a expr \<Rightarrow> ('a expr \<times> 'a container) list \<Rightarrow> error + 'r) \<Rightarrow> 'a expr \<Rightarrow> 'a bcolz \<Rightarrow> error + 'r" where
  "compute_down_Head compute expr data =
     (case leaves expr of
        [] \<Rightarrow> Inl IndexError
      | leaf # _ \<Rightarrow>
          if list_all (\<lambda>e. isinstance e Cheap) (path expr leaf)
          then compute expr [(leaf, Iterator (rows data))]
          else Inl MDNotImplementedError)"

subsection \<open>The chunked computation\<close>

text \<open>
  What a chunk computes and what the merge makes of it: a bare number, a numpy array, a
  pandas \<^verbatim>\<open>DataFrame\<close> (its column labels and its rows), or another iterable.
\<close>

datatype 'a pyobj =
    Number 'a
  | NdArray "'a list"
  | DataFrame "'a list" "'a list"
  | Sequence "'a list"

text \<open>
  \<^verbatim>\<open>np.concatenate\<close> joins arrays and sequences end to end and refuses a zero-dimensional
  value and a table next to one-dimensional arrays. \<^verbatim>\<open>pd.concat\<close> joins the rows of frames
  (their columns are those of the first: the frames of one chunk expression share them)
  and refuses everything else. \<^verbatim>\<open>list(concat(parts))\<close> iterates over each part in turn: over
  the elements of an array or a sequence, over the column labels of a frame, and a number
  cannot be iterated over.
\<close>

fun array_like :: "'a pyobj \<Rightarrow> error + 'a list" where
  "array_like (NdArray xs) = Inr xs"
| "array_like (Sequence xs) = Inr xs"
| "array_like (Number _) = Inl ValueError"
| "array_like (DataFrame _ _) = Inl ValueError"

fun frame_rows :: "'a pyobj \<Rightarrow> error + 'a list" where
  "frame_rows (DataFrame _ rs) = Inr rs"
| "frame_rows _ = Inl TypeError"

fun iterate :: "'a pyobj \<Rightarrow> error + 'a list" where
  "iterate (NdArray xs) = Inr xs"
| "iterate (Sequence xs) = Inr xs"
| "iterate (DataFrame cols _) = Inr cols"
| "iterate (Number _) = Inl TypeError"

text \<open>Applying a function that can raise to each element in turn, up to the first raise.\<close>

fun map_raise :: "('x \<Rightarrow> error + 'y) \<Rightarrow> 'x list \<Rightarrow> error + 'y list" where
  "map_raise f [] = Inr []"
| "map_raise f (x # xs) =
     (case f x of
        Inl e \<Rightarrow> Inl e
      | Inr y \<Rightarrow> (case map_raise f xs of Inl e \<Rightarrow> Inl e | Inr ys \<Rightarrow> Inr (y # ys)))"

definition np_concatenate :: "'a pyobj list \<Rightarrow> error + 'a pyobj" where
  "np_concatenate parts =
     (case map_raise array_like parts of Inl e \<Rightarrow> Inl e | Inr xss \<Rightarrow> Inr (NdArray (concat xss)))"

definition pd_concat :: "'a pyobj list \<Rightarrow> error + 'a pyobj" where
  "pd_concat parts =
     (case map_raise frame_rows parts of
        Inl e \<Rightarrow> Inl e
      | Inr rss \<Rightarrow>
          Inr (DataFrame (case parts of DataFrame cols _ # _ \<Rightarrow> cols | _ \<Rightarrow> []) (concat rss)))"

definition list_concat :: "'a pyobj list \<Rightarrow> error + 'a pyobj" where
  "list_concat parts =
     (case map_raise iterate parts of Inl e \<Rightarrow> Inl e | Inr xss \<Rightarrow> Inr (Sequence (concat xss)))"

text \<open>
  \<^verbatim>\<open>
      if isinstance(parts[0], np.ndarray):
          intermediate = np.concatenate(parts)
      elif isinstance(parts[0], pd.DataFrame):
          intermediate = pd.concat(parts)
      elif isinstance(parts[0], Iterable):
          intermediate = list(concat(parts))
  \<close>
  \<^verbatim>\<open>parts[0]\<close> of an empty list raises \<^verbatim>\<open>IndexError\<close>. When no branch is taken,
  \<^verbatim>\<open>intermediate\<close> is not bound and the next line, which reads it, raises
  \<^verbatim>\<open>UnboundLocalError\<close>.
\<close>

definition merge_parts :: "'a pyobj list \<Rightarrow> error + 'a pyobj" where
  "merge_parts parts =
     (case parts of
        [] \<Rightarrow> Inl IndexError
      | first # _ \<Rightarrow>
          (case first of
             NdArray _ \<Rightarrow> np_concatenate parts
           | DataFrame _ _ \<Rightarrow> pd_concat parts
           | Sequence _ \<Rightarrow> list_concat parts
           | Number _ \<Rightarrow> Inl UnboundLocalError))"

text \<open>
  \<^verbatim>\<open>
  def compute_chunk(source, chunk, chunk_expr, data_index):
      part = source[data_index]
      return compute(chunk_expr, {chunk: part})
  \<close>
  A partition is the pair of bounds of a slice, and a slice of a bcolz source is a numpy
  array.
\<close>

definition compute_chunk ::
  "('a expr \<Rightarrow> ('a expr \<times> 'a pyobj) list \<Rightarrow> error + 'a pyobj) \<Rightarrow> 'a bcolz \<Rightarrow> 'a expr \<Rightarrow> 'a expr
     \<Rightarrow> nat \<times> nat \<Rightarrow> error + 'a pyobj" where
  "compute_chunk compute source chunk chunk_expr data_index =
     (let part = NdArray (getslice (rows source) (fst data_index) (snd data_index))
      in compute chunk_expr [(chunk, part)])"

text \<open>
  \<^verbatim>\<open>
  @dispatch(Expr, (bcolz.carray, bcolz.ctable))
  def compute_down(expr, data, chunksize=2**20, map=map, **kwargs):
      leaf = expr._leaves()[0]

      chunk = Symbol('chunk', chunksize * leaf.schema)
      (chunk, chunk_expr), (agg, agg_expr) = split(leaf, expr, chunk=chunk)

      data_parts = partitions(data, chunksize=(chunksize,))

      parts = map(curry(compute_chunk, data, chunk, chunk_expr),
                         data_parts)
      ... (the merge above)
      return compute(agg_expr, {agg: intermediate})
  \<close>
  \<open>split\<close>, \<open>partitions\<close> and \<open>compute\<close> are the splitter, the partition planner and the
  generic evaluator, which the module imports. \<^verbatim>\<open>map\<close> is the builtin one, which returns
  the list of the results in order.
\<close>

definition compute_down ::
  "('a expr \<Rightarrow> 'a expr \<Rightarrow> 'a expr \<Rightarrow> ('a expr \<times> 'a expr) \<times> ('a expr \<times> 'a expr))
     \<Rightarrow> ('a bcolz \<Rightarrow> nat \<Rightarrow> (nat \<times> nat) list)
     \<Rightarrow> ('a expr \<Rightarrow> ('a expr \<times> 'a pyobj) list \<Rightarrow> error + 'a pyobj)
     \<Rightarrow> 'a expr \<Rightarrow> 'a bcolz \<Rightarrow> nat \<Rightarrow> error + 'a pyobj" where
  "compute_down split partitions compute expr data chunksize =
     (case leaves expr of
        [] \<Rightarrow> Inl IndexError
      | leaf # _ \<Rightarrow>
          (case split leaf expr (Symbol ''chunk'') of
             ((chunk, chunk_expr), (agg, agg_expr)) \<Rightarrow>
               let data_parts = partitions data chunksize in
               (case map_raise (compute_chunk compute data chunk chunk_expr) data_parts of
                  Inl e \<Rightarrow> Inl e
                | Inr parts \<Rightarrow>
                    (case merge_parts parts of
                       Inl e \<Rightarrow> Inl e
                     | Inr intermediate \<Rightarrow> compute agg_expr [(agg, intermediate)]))))"

subsection \<open>The collaborators of the chunked computation\<close>

text \<open>
  Modelled from the spec: the partition planner \<^verbatim>\<open>partitions\<close> (its module is not among
  the sources). For a source of length \<open>L\<close> and a chunk size \<open>c\<close> it produces \<open>\<lceil>L / c\<rceil>\<close>
  half-open ranges in source order, each of \<open>c\<close> indices but the last, which may be
  shorter; none for an empty source.
\<close>

definition partitions :: "'a bcolz \<Rightarrow> nat \<Rightarrow> (nat \<times> nat) list" where
  "partitions data chunksize =
     map (chunk_range (length (rows data)) chunksize)
       [0..<(length (rows data) + chunksize - 1) div chunksize]"

text \<open>
  Modelled from the spec: the generic evaluator \<^verbatim>\<open>compute\<close> on numbers. A symbol is looked
  up in the bindings. The map, the filter, the slice and distinct work on the elements of
  what their child gives, in order; a reduction gives its number, bare or as an array of
  one element when \<^verbatim>\<open>keepdims\<close> is set. The numbers of this evaluator are real numbers and
  its sums are exact, as the spec's ``identical results'' for sum, count and
  distinct-count takes them.
\<close>

definition keep :: "bool \<Rightarrow> real \<Rightarrow> real pyobj" where
  "keep kd x = (if kd then NdArray [x] else Number x)"

definition on_elements :: "(real list \<Rightarrow> real pyobj) \<Rightarrow> error + real pyobj \<Rightarrow> error + real pyobj" where
  "on_elements f r =
     (case r of
        Inl e \<Rightarrow> Inl e
      | Inr v \<Rightarrow> (case iterate v of Inl e \<Rightarrow> Inl e | Inr xs \<Rightarrow> Inr (f xs)))"

fun compute :: "real expr \<Rightarrow> (real expr \<times> real pyobj) list \<Rightarrow> error + real pyobj" where
  "compute (Symbol n) bindings =
     (case map_of bindings (Symbol n) of None \<Rightarrow> Inl KeyError | Some v \<Rightarrow> Inr v)"
| "compute (ElemWise f e) bindings = on_elements (\<lambda>xs. NdArray (map f xs)) (compute e bindings)"
| "compute (Selection p e) bindings = on_elements (\<lambda>xs. NdArray (filter p xs)) (compute e bindings)"
| "compute (Head n e) bindings = on_elements (\<lambda>xs. NdArray (take n xs)) (compute e bindings)"
| "compute (Distinct e) bindings = on_elements (\<lambda>xs. NdArray (remdups xs)) (compute e bindings)"
| "compute (sum_expr kd e) bindings = on_elements (\<lambda>xs. keep kd (sum_list xs)) (compute e bindings)"
| "compute (count_expr kd e) bindings =
     on_elements (\<lambda>xs. keep kd (real (length xs))) (compute e bindings)"
| "compute (nunique_expr kd e) bindings =
     on_elements (\<lambda>xs. keep kd (real (length (remdups xs)))) (compute e bindings)"

text \<open>
  Modelled from the spec: the splitter \<^verbatim>\<open>split\<close> (its module is not among the sources), for
  the reductions whose two halves the spec gives. Sum: the sum of each chunk, then the
  sum of the chunk sums. Count: the length of each chunk, then the sum of the chunk
  counts. Distinct-count: the distinct elements of each chunk, then the number of
  distinct elements of their union. The chunk half keeps its number in an array of one
  element, so that the chunk results can be concatenated. \<open>subs\<close> puts the chunk symbol in
  the place of the leaf. For any other expression the spec leaves the split undefined;
  the model computes the expression on each chunk and hands the merge on.
\<close>

fun subs :: "'a expr \<Rightarrow> 'a expr \<Rightarrow> 'a expr \<Rightarrow> 'a expr" where
  "subs leaf chunk (Symbol n) = (if Symbol n = leaf then chunk else Symbol n)"
| "subs leaf chunk (ElemWise f e) = ElemWise f (subs leaf chunk e)"
| "subs leaf chunk (Selection p e) = Selection p (subs leaf chunk e)"
| "subs leaf chunk (Head n e) = Head n (subs leaf chunk e)"
| "subs leaf chunk (Distinct e) = Distinct (subs leaf chunk e)"
| "subs leaf chunk (sum_expr kd e) = sum_expr kd (subs leaf chunk e)"
| "subs leaf chunk (count_expr kd e) = count_expr kd (subs leaf chunk e)"
| "subs leaf chunk (nunique_expr kd e) = nunique_expr kd (subs leaf chunk e)"

definition agg_symbol :: "'a expr" where
  "agg_symbol = Symbol ''aggregate''"

fun split :: "'a expr \<Rightarrow> 'a expr \<Rightarrow> 'a expr \<Rightarrow> ('a expr \<times> 'a expr) \<times> ('a expr \<times> 'a expr)" where
  "split leaf (sum_expr kd e) chunk =
     ((chunk, sum_expr True (subs leaf chunk e)), (agg_symbol, sum_expr kd agg_symbol))"
| "split leaf (count_expr kd e) chunk =
     ((chunk, count_expr True (subs leaf chunk e)), (agg_symbol, sum_expr kd agg_symbol))"
| "split leaf (nunique_expr kd e) chunk =
     ((chunk, Distinct (subs leaf chunk e)), (agg_symbol, nunique_expr kd agg_symbol))"
| "split leaf expr chunk = ((chunk, subs leaf chunk expr), (agg_symbol, agg_symbol))"

text \<open>
  Modelled from the spec: a map-like transform, an expression made of elementwise maps and
  filters over the leaf. \<open>transform\<close> is what it does to the elements.
\<close>

fun map_like :: "'a expr \<Rightarrow> bool" where
  "map_like (Symbol _) = True"
| "map_like (ElemWise _ e) = map_like e"
| "map_like (Selection _ e) = map_like e"
| "map_like _ = False"

fun transform :: "'a expr \<Rightarrow> 'a list \<Rightarrow> 'a list" where
  "transform (ElemWise f e) xs = map f (transform e xs)"
| "transform (Selection p e) xs = filter p (transform e xs)"
| "transform _ xs = xs"

section \<open>Properties\<close>

subsection \<open>The chunk iterator\<close>

lemma getslice_nth:
  "getslice b start stop = map ((!) b) [min start (length b) ..< min stop (length b)]"
proof (rule nth_equalityI)
  show "length (getslice b start stop) =
        length (map ((!) b) [min start (length b) ..< min stop (length b)])"
    by (auto simp: getslice_def min_def)
next
  fix i
  assume "i < length (getslice b start stop)"
  then have i: "i < stop - start" "start + i < length b"
    by (auto simp: getslice_def)
  then have "min start (length b) = start" "i < min stop (length b) - start"
    by auto
  then show "getslice b start stop ! i =
             map ((!) b) [min start (length b) ..< min stop (length b)] ! i"
    using i by (simp add: getslice_def)
qed

lemma getslice_range:
  "getslice b start stop =
     map ((!) b) [fst (slice_indices (length b) start stop) ..<
                  snd (slice_indices (length b) start stop)]"
  by (simp add: getslice_nth slice_indices_def)

lemma chunk_count_step:
  assumes "0 < c" "s < n"
  shows "(n - s + c - 1) div c = Suc ((n - (s + c) + c - 1) div c)"
proof (cases "s + c \<le> n")
  case True
  then have "n - s + c - 1 = (n - (s + c) + c - 1) + c"
    using assms by simp
  then have "(n - s + c - 1) div c = ((n - (s + c) + c - 1) + c) div c"
    by (rule arg_cong)
  also have "\<dots> = Suc ((n - (s + c) + c - 1) div c)"
    using assms(1) by (simp only: div_add_self2)
  finally show ?thesis .
next
  case False
  then have "n - (s + c) = 0" "0 < n - s" "n - s < c"
    using assms by simp_all
  then have "(n - s + c - 1) div c = 1"
    by (intro div_nat_eqI) simp_all
  then show ?thesis
    using \<open>n - (s + c) = 0\<close> assms by simp
qed


lemma chunks_from_closed:
  assumes "0 < c"
  shows "chunks_from b c s =
         Some (map (\<lambda>j. getslice b (s + j * c) (s + j * c + c)) [0..<(length b - s + c - 1) div c])"
proof (induction "length b - s" arbitrary: s rule: less_induct)
  case less
  show ?case
  proof (cases "s < length b")
    case False
    then have "(length b - s + c - 1) div c = 0"
      using assms by simp
    with False show ?thesis
      by (subst chunks_from.simps) simp
  next
    case True
    then have "length b - (s + c) < length b - s"
      using assms by simp
    then have IH: "chunks_from b c (s + c) =
        Some (map (\<lambda>j. getslice b (s + c + j * c) (s + c + j * c + c))
                [0..<(length b - (s + c) + c - 1) div c])"
      by (rule less)
    have cnt: "(length b - s + c - 1) div c = Suc ((length b - (s + c) + c - 1) div c)"
      using assms True by (rule chunk_count_step)
    have shift: "map (\<lambda>j. getslice b (s + j * c) (s + j * c + c)) [0..<Suc m] =
          getslice b s (s + c) # map (\<lambda>j. getslice b (s + c + j * c) (s + c + j * c + c)) [0..<m]" for m
      by (simp add: upt_conv_Cons map_Suc_upt [symmetric] add.assoc add.left_commute del: upt_Suc)
    show ?thesis
      using True by (subst chunks_from.simps) (simp only: IH cnt shift if_True Option.bind.simps)
  qed
qed


lemma chunks_closed:
  assumes "0 < c"
  shows "chunks b c = Some (map (\<lambda>i. get_chunk b i c) [0..<(length b + c - 1) div c])"
  using chunks_from_closed [OF assms, of b 0]
  by (simp add: chunks_def get_chunk_def mult.commute add.commute)

lemma concat_get_chunks: "concat (map (\<lambda>i. get_chunk b i c) [0..<m]) = take (m * c) b"
proof (induction m)
  case 0
  show ?case by simp
next
  case (Suc m)
  have "get_chunk b m c = take c (drop (m * c) b)"
    by (simp add: get_chunk_def getslice_def mult.commute)
  moreover have "take (Suc m * c) b = take (m * c + c) b"
    by (simp add: add.commute)
  moreover have "take (m * c + c) b = take (m * c) b @ take c (drop (m * c) b)"
    by (rule take_add)
  ultimately show ?case
    using Suc by simp
qed

lemma chunk_count_ceiling:
  assumes "0 < c"
  shows "nat \<lceil>real n / real c\<rceil> = (n + c - 1) div c"
proof -
  define q where "q = (n + c - 1) div c"
  have up: "n \<le> q * c"
  proof -
    have "n + c - 1 < Suc q * c"
      unfolding q_def using assms by (metis dividend_less_div_times mult.commute mult_Suc)
    then show ?thesis using assms by simp
  qed
  have low: "q * c < n + c"
  proof -
    have "q * c \<le> n + c - 1"
      unfolding q_def by simp
    then show ?thesis using assms by simp
  qed
  have "real n / real c \<le> real q"
    using up assms by (simp add: divide_le_eq flip: of_nat_mult)
  moreover have "real q - 1 < real n / real c"
  proof -
    have "real (q * c) < real (n + c)" using low by (simp only: of_nat_less_iff)
    then have "(real q - 1) * real c < real n" by (simp add: algebra_simps)
    then show ?thesis using assms by (simp add: less_divide_eq)
  qed
  ultimately have "\<lceil>real n / real c\<rceil> = int q"
    by (intro ceiling_unique) simp_all
  then show ?thesis by (simp add: q_def)
qed

lemma chunk_start_in_range:
  assumes "0 < c" "i < (n + c - 1) div c"
  shows "c * i < (n::nat)"
proof -
  have "Suc i \<le> (n + c - 1) div c" using assms by simp
  then have "Suc i * c \<le> n + c - 1"
    using assms(1) by (simp only: less_eq_div_iff_mult_less_eq)
  then show ?thesis using assms(1) by (simp add: mult.commute)
qed

lemma chunk_full_before_last:
  assumes "0 < c" "Suc i < (n + c - 1) div c"
  shows "c * (i + 1) < n"
  using chunk_start_in_range [OF assms] by simp

lemma chunk_ranges_cover:
  assumes "0 < c"
  shows "(\<Union>i<(n + c - 1) div c. {fst (chunk_range n c i) ..< snd (chunk_range n c i)}) = {0..<n}"
proof (intro equalityI subsetI)
  fix x
  assume "x \<in> (\<Union>i<(n + c - 1) div c. {fst (chunk_range n c i) ..< snd (chunk_range n c i)})"
  then show "x \<in> {0..<n}"
    by (auto simp: chunk_range_def slice_indices_def)
next
  fix x
  assume "x \<in> {0..<n}"
  then have x: "x < n" by simp
  let ?i = "x div c"
  have "Suc ?i * c \<le> n + c - 1"
  proof -
    define k where "k = ?i * c"
    have "k \<le> x" by (simp add: k_def)
    then have "k + c \<le> n + c - 1" using x assms by linarith
    then show ?thesis by (simp add: k_def add.commute)
  qed
  then have "Suc ?i \<le> (n + c - 1) div c"
    using assms by (simp only: less_eq_div_iff_mult_less_eq)
  then have i: "?i < (n + c - 1) div c" by simp
  have lo: "fst (chunk_range n c ?i) \<le> x"
    by (simp add: chunk_range_def slice_indices_def min.coboundedI1)
  have "x < c * (?i + 1)"
    using assms by (metis Suc_eq_plus1 dividend_less_times_div mult_Suc_right)
  then have hi: "x < snd (chunk_range n c ?i)"
    using x by (simp add: chunk_range_def slice_indices_def)
  have "x \<in> {fst (chunk_range n c ?i) ..< snd (chunk_range n c ?i)}"
    using lo hi by (simp only: atLeastLessThan_iff simp_thms)
  with i show "x \<in> (\<Union>i<(n + c - 1) div c. {fst (chunk_range n c i) ..< snd (chunk_range n c i)})"
    by blast
qed

lemma chunk_ranges_disjoint:
  assumes "i < j"
  shows "{fst (chunk_range n c i) ..< snd (chunk_range n c i)} \<inter>
         {fst (chunk_range n c j) ..< snd (chunk_range n c j)} = {}"
proof -
  have "Suc i \<le> j" using assms by simp
  then have "c * Suc i \<le> c * j" by (rule mult_le_mono2)
  then have "c * (i + 1) \<le> c * j" by simp
  then have "snd (chunk_range n c i) \<le> fst (chunk_range n c j)"
    by (simp add: chunk_range_def slice_indices_def min_def)
  then show ?thesis by auto
qed

text \<open>
  Claim C2. For a source of length \<open>L\<close> and a chunk size \<open>c \<ge> 1\<close> the chunk iterator ends
  and yields exactly \<open>\<lceil>L / c\<rceil>\<close> slices; slice \<open>i\<close> is \<open>get_chunk b i c\<close> and holds the
  elements of the non-empty half-open index range \<open>chunk_range L c i\<close>, of at most \<open>c\<close>
  indices; every range but the last is \<open>[c * i, c * i + c)\<close> and ends where the next one
  starts; the ranges are pairwise disjoint, their union is \<open>[0, L)\<close>, the slices put end to
  end are the source, and an empty source yields no slice.
\<close>

theorem chunks_partition:
  assumes "1 \<le> c"
  shows "\<exists>ps. chunks b c = Some ps
     \<and> length ps = nat \<lceil>real (length b) / real c\<rceil>
     \<and> (\<forall>i<length ps.
            ps ! i = get_chunk b i c
          \<and> ps ! i = map ((!) b) [fst (chunk_range (length b) c i) ..< snd (chunk_range (length b) c i)]
          \<and> fst (chunk_range (length b) c i) < snd (chunk_range (length b) c i)
          \<and> snd (chunk_range (length b) c i) - fst (chunk_range (length b) c i) \<le> c)
     \<and> (\<forall>i. Suc i < length ps \<longrightarrow>
            chunk_range (length b) c i = (c * i, c * i + c)
          \<and> snd (chunk_range (length b) c i) = fst (chunk_range (length b) c (Suc i)))
     \<and> (\<Union>i<length ps. {fst (chunk_range (length b) c i) ..< snd (chunk_range (length b) c i)})
           = {0..<length b}
     \<and> (\<forall>i j. i < j \<longrightarrow>
            {fst (chunk_range (length b) c i) ..< snd (chunk_range (length b) c i)} \<inter>
            {fst (chunk_range (length b) c j) ..< snd (chunk_range (length b) c j)} = {})
     \<and> concat ps = b
     \<and> (length b = 0 \<longrightarrow> ps = [])"
proof -
  let ?n = "length b"
  let ?m = "(?n + c - 1) div c"
  let ?ps = "map (\<lambda>i. get_chunk b i c) [0..<?m]"
  have c: "0 < c" using assms by simp
  have len: "length ?ps = ?m" by simp
  have 1: "chunks b c = Some ?ps"
    using c by (rule chunks_closed)
  have 2: "length ?ps = nat \<lceil>real ?n / real c\<rceil>"
    using c by (simp add: chunk_count_ceiling)
  have 3: "?ps ! i = get_chunk b i c
          \<and> ?ps ! i = map ((!) b) [fst (chunk_range ?n c i) ..< snd (chunk_range ?n c i)]
          \<and> fst (chunk_range ?n c i) < snd (chunk_range ?n c i)
          \<and> snd (chunk_range ?n c i) - fst (chunk_range ?n c i) \<le> c" if "i < length ?ps" for i
  proof -
    have i: "i < ?m" using that by simp
    have s: "c * i < ?n" using c i by (rule chunk_start_in_range)
    have "?ps ! i = get_chunk b i c" using i by simp
    moreover have "get_chunk b i c =
        map ((!) b) [fst (chunk_range ?n c i) ..< snd (chunk_range ?n c i)]"
      by (simp add: get_chunk_def chunk_range_def getslice_range Let_def)
    moreover have "fst (chunk_range ?n c i) < snd (chunk_range ?n c i)"
      using s c by (simp add: chunk_range_def slice_indices_def)
    moreover have "snd (chunk_range ?n c i) - fst (chunk_range ?n c i) \<le> c"
      using s by (auto simp: chunk_range_def slice_indices_def min_def)
    ultimately show ?thesis by simp
  qed
  have 4: "chunk_range ?n c i = (c * i, c * i + c)
          \<and> snd (chunk_range ?n c i) = fst (chunk_range ?n c (Suc i))" if "Suc i < length ?ps" for i
  proof -
    have "c * (i + 1) < ?n"
      using c that by (intro chunk_full_before_last) simp_all
    then show ?thesis
      by (simp add: chunk_range_def slice_indices_def min_def)
  qed
  have 5: "(\<Union>i<length ?ps. {fst (chunk_range ?n c i) ..< snd (chunk_range ?n c i)}) = {0..<?n}"
    unfolding len using c by (rule chunk_ranges_cover)
  have 6: "{fst (chunk_range ?n c i) ..< snd (chunk_range ?n c i)} \<inter>
           {fst (chunk_range ?n c j) ..< snd (chunk_range ?n c j)} = {}" if "i < j" for i j
    using that by (rule chunk_ranges_disjoint)
  have 7: "concat ?ps = b"
  proof -
    have "?n \<le> ?m * c"
    proof -
      have "?n + c - 1 < Suc ?m * c"
        using c by (metis dividend_less_div_times mult.commute mult_Suc)
      then show ?thesis using c by simp
    qed
    then show ?thesis by (simp add: concat_get_chunks)
  qed
  have 8: "?ps = []" if "?n = 0"
    using that c by simp
  show ?thesis
    using 1 2 3 4 5 6 7 8 by (intro exI [of _ ?ps] conjI allI impI) blast+
qed

text \<open>The scenario of ten elements in chunks of three.\<close>

theorem chunks_partition_witness:
  "(1::nat) \<le> 3
   \<and> (\<exists>ps. chunks [1, 2, 3, 4, 5, 6, 7, 8, 9, 10 :: int] 3 = Some ps
          \<and> length ps = 4 \<and> ps ! 0 = [1, 2, 3] \<and> ps ! 3 = [10]
          \<and> concat ps = [1, 2, 3, 4, 5, 6, 7, 8, 9, 10])
   \<and> map (chunk_range 10 3) [0, 1, 2, 3] = [(0, 3), (3, 6), (6, 9), (9, 10)]"
proof -
  let ?b = "[1, 2, 3, 4, 5, 6, 7, 8, 9, 10 :: int]"
  have h: "(1::nat) \<le> 3" by simp
  have r: "map (chunk_range 10 3) [0, 1, 2, 3] = [(0, 3), (3, 6), (6, 9), (9, 10)]"
    by (simp add: chunk_range_def slice_indices_def)
  have "\<exists>ps. chunks ?b 3 = Some ps \<and> length ps = 4 \<and> ps ! 0 = [1, 2, 3] \<and> ps ! 3 = [10]
          \<and> concat ps = ?b"
    using chunks_partition [OF h, of ?b]
  proof (elim exE conjE)
    fix ps
    assume ps: "chunks ?b 3 = Some ps"
      "length ps = nat \<lceil>real (length ?b) / real (3::nat)\<rceil>"
      "concat ps = ?b"
    assume nth: "\<forall>i<length ps.
            ps ! i = get_chunk ?b i 3
          \<and> ps ! i = map ((!) ?b) [fst (chunk_range (length ?b) 3 i) ..< snd (chunk_range (length ?b) 3 i)]
          \<and> fst (chunk_range (length ?b) 3 i) < snd (chunk_range (length ?b) 3 i)
          \<and> snd (chunk_range (length ?b) 3 i) - fst (chunk_range (length ?b) 3 i) \<le> 3"
    have "nat \<lceil>real (length ?b) / real (3::nat)\<rceil> = (length ?b + 3 - 1) div 3"
      by (rule chunk_count_ceiling) simp
    then have n: "length ps = 4"
      using ps(2) by simp
    have "0 < length ps" "3 < length ps"
      using n by simp_all
    then have "ps ! 0 = get_chunk ?b 0 3" "ps ! 3 = get_chunk ?b 3 3"
      using nth by blast+
    then have e: "ps ! 0 = [1, 2, 3]" "ps ! 3 = [10]"
      by (simp_all add: get_chunk_def getslice_def)
    show ?thesis
      using ps(1) n e ps(3) by (intro exI [of _ ps] conjI)
  qed
  with h r show ?thesis
    by (intro conjI)
qed

subsection \<open>Sums over chunks\<close>

lemma chunks_concat:
  assumes "0 < c"
  shows "\<exists>cs. chunks b c = Some cs \<and> concat cs = b"
proof -
  let ?m = "(length b + c - 1) div c"
  have "length b + c - 1 < Suc ?m * c"
    using assms by (metis dividend_less_div_times mult.commute mult_Suc)
  then have "length b \<le> ?m * c" using assms by simp
  then have "concat (map (\<lambda>i. get_chunk b i c) [0..<?m]) = b"
    by (simp add: concat_get_chunks)
  then show ?thesis
    using chunks_closed [OF assms, of b] by simp
qed

lemma default_chunksize_pos: "0 < default_chunksize"
  by (simp add: default_chunksize_def)


lemma chunks_small:
  assumes "ba \<noteq> []" "length ba \<le> default_chunksize"
  shows "chunks ba default_chunksize = Some [ba]"
proof -
  have "(length ba + default_chunksize - 1) div default_chunksize = 1"
    using assms default_chunksize_pos
    by (intro div_nat_eqI) (cases ba, simp_all)
  then show ?thesis
    using chunks_closed [OF default_chunksize_pos, of ba] assms(2)
    by (simp add: get_chunk_def getslice_def)
qed

lemma compute_up_var_chunks:
  assumes "chunks ba default_chunksize = Some cs" "ba \<noteq> []"
  shows "compute_up_var A expr ba chunksize =
     Some (Inr (keepdims_wrap expr
       (np_truediv A
          (float_sub A
             (builtins_sum A (map (\<lambda>chunk. np_sum A (np_mul A chunk chunk)) cs))
             (float_div A
                (float_mul A (to_float A (carray_sum_op A ba)) (to_float A (carray_sum_op A ba)))
                (int (length ba))))
          (int (length ba) - of_bool (unbiased expr)))))"
  using assms
  by (simp add: compute_up_var_def carray_len_def carray_sum_def py_truediv_def Let_def)

lemma compute_up_var_empty:
  "compute_up_var A expr [] chunksize = Some (Inl ZeroDivisionError)"
proof -
  obtain cs where cs: "chunks ([] :: npfloat list) default_chunksize = Some cs"
    using chunks_concat [OF default_chunksize_pos] by blast
  show ?thesis
    by (simp add: compute_up_var_def cs carray_len_def py_truediv_def Let_def)
qed

lemma exact_fold: "foldl (lift2 (+)) (Fin a) (map Fin xs) = Fin (a + sum_list xs)"
  by (induction xs arbitrary: a) (simp_all add: add.assoc)

lemma exact_sum_Fin: "exact_sum (map Fin xs) = Fin (sum_list xs)"
  by (simp add: exact_sum_def exact_fold)

lemma exact_np_mul: "np_mul exact_arith (map Fin xs) (map Fin xs) = map Fin (map (\<lambda>x. x * x) xs)"
  by (induction xs) (simp_all add: np_mul_def exact_arith_def)

lemma exact_np_sum: "np_sum exact_arith (map Fin xs) = Fin (sum_list xs)"
  by (simp add: np_sum_def exact_arith_def exact_sum_Fin)

lemma exact_np_sum_map: "np_sum exact_arith (map (\<lambda>x. Fin (f x)) xs) = Fin (sum_list (map f xs))"
  using exact_np_sum [of "map f xs"] by (simp add: o_def)

lemma exact_builtins_sum: "builtins_sum exact_arith (map Fin xs) = Fin (sum_list xs)"
  using exact_fold [of 0 xs] by (simp add: builtins_sum_def exact_arith_def)

lemma get_chunk_map: "get_chunk (map f xs) i c = map f (get_chunk xs i c)"
  by (simp add: get_chunk_def getslice_def take_map drop_map Let_def)

lemma sum_list_over_chunks:
  "sum_list (map (\<lambda>i. \<Sum>x\<leftarrow>g i. (f x :: real)) js) = (\<Sum>x\<leftarrow>concat (map g js). f x)"
  by (induction js) simp_all

lemma exact_sum_squares_chunks:
  assumes "length xs \<le> m * c"
  shows "builtins_sum exact_arith
           (map (\<lambda>chunk. np_sum exact_arith (np_mul exact_arith chunk chunk))
              (map (\<lambda>i. get_chunk (map Fin xs) i c) [0..<m]))
         = Fin (\<Sum>x\<leftarrow>xs. x * x)"
proof -
  have "map (\<lambda>chunk. np_sum exact_arith (np_mul exact_arith chunk chunk))
              (map (\<lambda>i. get_chunk (map Fin xs) i c) [0..<m])
        = map Fin (map (\<lambda>i. \<Sum>x\<leftarrow>get_chunk xs i c. x * x) [0..<m])"
    by (simp add: get_chunk_map exact_np_mul exact_np_sum_map o_def)
  moreover have "sum_list (map (\<lambda>i. \<Sum>x\<leftarrow>get_chunk xs i c. x * x) [0..<m])
        = (\<Sum>x\<leftarrow>concat (map (\<lambda>i. get_chunk xs i c) [0..<m]). x * x)"
    by (rule sum_list_over_chunks)
  moreover have "concat (map (\<lambda>i. get_chunk xs i c) [0..<m]) = xs"
    using assms by (simp add: concat_get_chunks)
  ultimately show ?thesis
    by (simp only: exact_builtins_sum)
qed

lemma compute_up_var_exact:
  assumes "xs \<noteq> []"
  shows "compute_up_var exact_arith expr (map Fin xs) chunksize =
     Some (Inr (keepdims_wrap expr
       (np_truediv exact_arith
          (Fin ((\<Sum>x\<leftarrow>xs. x * x) - (sum_list xs * sum_list xs) / real (length xs)))
          (int (length xs) - of_bool (unbiased expr)))))"
proof -
  let ?c = default_chunksize
  let ?m = "(length xs + ?c - 1) div ?c"
  have cs: "chunks (map Fin xs) ?c = Some (map (\<lambda>i. get_chunk (map Fin xs) i ?c) [0..<?m])"
    using chunks_closed [OF default_chunksize_pos, of "map Fin xs"] by simp
  have "length xs + ?c - 1 < Suc ?m * ?c"
    using default_chunksize_pos by (metis dividend_less_div_times mult.commute mult_Suc)
  then have le: "length xs \<le> ?m * ?c" using default_chunksize_pos by simp
  have ne: "map Fin xs \<noteq> []" using assms by simp
  have s: "carray_sum_op exact_arith (map Fin xs) = Fin (sum_list xs)"
    by (simp add: exact_arith_def exact_sum_Fin)
  have n: "real (length xs) = real_of_int (int (length xs))" by simp
  show ?thesis
    unfolding compute_up_var_chunks [OF cs ne] exact_sum_squares_chunks [OF le] s
    by (simp add: exact_arith_def)
qed



lemma wrap64_int: "wrap64 (of_int k) = of_int ((k + 2 ^ 63) mod 2 ^ 64 - 2 ^ 63)"
  by (simp add: wrap64_def)

lemma int64_float_ops:
  "float_mul int64_arith = lift2 (*)"
  "float_sub int64_arith = lift2 (-)"
  "float_div int64_arith = (\<lambda>x d. lift1 (\<lambda>a. a / of_int d) x)"
  "float_sqrt int64_arith = sqrt"
  "to_float int64_arith = (\<lambda>x. x)"
  by (simp_all add: int64_arith_def exact_arith_def)

lemma compute_up_var_int64_overflow:
  "compute_up_var int64_arith \<lparr>keepdims = False, unbiased = True\<rparr> [Fin (2 ^ 32), Fin (2 ^ 32)] chunksize
     = Some (Inr (Scalar (Fin (- (2 ^ 65)))))"
proof -
  let ?ba = "[Fin (2 ^ 32), Fin (2 ^ 32)]"
  have cs: "chunks ?ba default_chunksize = Some [?ba]"
    by (rule chunks_small) (simp_all add: default_chunksize_def)
  have w1: "wrap64 (2 ^ 32 * 2 ^ 32) = 0"
  proof -
    have "((2 ^ 32 * 2 ^ 32 + 2 ^ 63) mod 2 ^ 64 - 2 ^ 63 :: int) = 0" by simp
    moreover have "(2 ^ 32 * 2 ^ 32 :: real) = of_int (2 ^ 32 * 2 ^ 32)" by simp
    ultimately show ?thesis by (simp only: wrap64_int of_int_0)
  qed
  have w2: "wrap64 (2 ^ 32 + 2 ^ 32) = 2 ^ 33"
  proof -
    have "((2 ^ 32 + 2 ^ 32 + 2 ^ 63) mod 2 ^ 64 - 2 ^ 63 :: int) = 2 ^ 33" by simp
    moreover have "(2 ^ 32 + 2 ^ 32 :: real) = of_int (2 ^ 32 + 2 ^ 32)" by simp
    ultimately show ?thesis by (simp only: wrap64_int) simp
  qed
  have w1n: "wrap64 18446744073709551616 = 0"
    using w1 by simp
  have w0: "wrap64 0 = 0"
    by (simp add: wrap64_def)
  have sq: "np_mul int64_arith ?ba ?ba = [Fin 0, Fin 0]"
    by (simp add: np_mul_def int64_arith_def exact_arith_def w1n)
  have s2: "builtins_sum int64_arith [np_sum int64_arith [Fin 0, Fin 0]] = Fin 0"
    by (simp add: builtins_sum_def np_sum_def int64_arith_def exact_arith_def exact_sum_def w0)
  have ex: "to_float int64_arith (carray_sum_op int64_arith ?ba) = Fin (2 ^ 33)"
    using w2 by (simp add: int64_arith_def exact_arith_def exact_sum_def)
  show ?thesis
    unfolding compute_up_var_chunks [OF cs list.distinct(2)]
    by (simp only: list.map sq s2 ex) (simp add: keepdims_wrap_def np_truediv_def int64_float_ops)
qed

subsection \<open>Variance and standard deviation\<close>




lemma math_sqrt_nan_iff: "math_sqrt A x = Inr NaN \<longleftrightarrow> x = NaN"
  by (cases x) (simp_all add: math_sqrt_def)

lemma compute_up_var_child:
  "compute_up_var A (child_var expr) ba chunksize = Some (Inl ZeroDivisionError)
   \<or> (\<exists>r. compute_up_var A (child_var expr) ba chunksize = Some (Inr (Scalar r)))"
proof (cases "ba = []")
  case True
  then show ?thesis by (simp add: compute_up_var_empty)
next
  case False
  obtain cs where cs: "chunks ba default_chunksize = Some cs"
    using chunks_concat [OF default_chunksize_pos] by blast
  show ?thesis
    unfolding compute_up_var_chunks [OF cs False]
    by (simp add: keepdims_wrap_def child_var_def)
qed

lemma compute_up_std_of_scalar:
  assumes "compute_up_var A (child_var expr) ba chunksize = Some (Inr (Scalar x))"
  shows "compute_up_std A expr ba chunksize =
           Some (case math_sqrt A x of Inl e \<Rightarrow> Inl e | Inr s \<Rightarrow> Inr (keepdims_wrap expr s))"
  by (simp add: compute_up_std_def assms std_of_var_def)

text \<open>
  Claim C4. In every machine arithmetic the standard deviation computation returns, and
  what it returns is the square root of what the variance computation returns for the
  same array and the same \<^verbatim>\<open>unbiased\<close> flag: an exception of the variance goes through, and
  otherwise \<^verbatim>\<open>math.sqrt\<close> is applied to its value. Whenever the variance comes out negative,
  the computation raises \<^verbatim>\<open>ValueError\<close>, the domain error of \<^verbatim>\<open>math.sqrt\<close>: that is the one
  policy, nothing is clamped. A variance that is not negative gives its root, and \<^verbatim>\<open>nan\<close>
  is returned exactly when the variance itself is \<^verbatim>\<open>nan\<close>.
\<close>

theorem std_sqrt_of_var:
  "(\<exists>out. compute_up_std A expr ba chunksize = Some out)
   \<and> compute_up_std A expr ba chunksize =
       (case compute_up_var A (child_var expr) ba chunksize of
          None \<Rightarrow> None
        | Some (Inl e) \<Rightarrow> Some (Inl e)
        | Some (Inr r) \<Rightarrow>
            Some (case math_sqrt A (result_value r) of
                    Inl e \<Rightarrow> Inl e
                  | Inr s \<Rightarrow> Inr (keepdims_wrap expr s)))
   \<and> (\<forall>v. compute_up_var A (child_var expr) ba chunksize = Some (Inr (Scalar (Fin v))) \<and> v < 0
          \<longrightarrow> compute_up_std A expr ba chunksize = Some (Inl ValueError))
   \<and> (compute_up_var A (child_var expr) ba chunksize = Some (Inr (Scalar NegInf))
          \<longrightarrow> compute_up_std A expr ba chunksize = Some (Inl ValueError))
   \<and> (\<forall>v. compute_up_var A (child_var expr) ba chunksize = Some (Inr (Scalar (Fin v))) \<and> 0 \<le> v
          \<longrightarrow> compute_up_std A expr ba chunksize
                = Some (Inr (keepdims_wrap expr (Fin (float_sqrt A v)))))
   \<and> (compute_up_std A expr ba chunksize = Some (Inr (keepdims_wrap expr NaN))
          \<longleftrightarrow> compute_up_var A (child_var expr) ba chunksize = Some (Inr (Scalar NaN)))
   \<and> (\<forall>e. compute_up_var A (child_var expr) ba chunksize = Some (Inl e)
          \<longrightarrow> compute_up_std A expr ba chunksize = Some (Inl e))"
proof -
  let ?var = "compute_up_var A (child_var expr) ba chunksize"
  let ?std = "compute_up_std A expr ba chunksize"
  have 1: "\<exists>out. ?std = Some out"
    using compute_up_var_child [of A expr ba chunksize]
    by (auto simp: compute_up_std_def)
  have 2: "?std =
       (case ?var of
          None \<Rightarrow> None
        | Some (Inl e) \<Rightarrow> Some (Inl e)
        | Some (Inr r) \<Rightarrow>
            Some (case math_sqrt A (result_value r) of
                    Inl e \<Rightarrow> Inl e
                  | Inr s \<Rightarrow> Inr (keepdims_wrap expr s)))"
    by (simp add: compute_up_std_def std_of_var_def split: option.splits sum.splits)
  have 3: "?std = Some (Inl ValueError)" if "?var = Some (Inr (Scalar (Fin v))) \<and> v < 0" for v
    using that by (simp add: compute_up_std_of_scalar math_sqrt_def)
  have 4: "?std = Some (Inl ValueError)" if "?var = Some (Inr (Scalar NegInf))"
    using that by (simp add: compute_up_std_of_scalar math_sqrt_def)
  have 5: "?std = Some (Inr (keepdims_wrap expr (Fin (float_sqrt A v))))"
    if "?var = Some (Inr (Scalar (Fin v))) \<and> 0 \<le> v" for v
    using that by (simp add: compute_up_std_of_scalar math_sqrt_def)
  have 6: "?std = Some (Inr (keepdims_wrap expr NaN)) \<longleftrightarrow> ?var = Some (Inr (Scalar NaN))"
  proof
    assume s: "?std = Some (Inr (keepdims_wrap expr NaN))"
    from compute_up_var_child [of A expr ba chunksize] show "?var = Some (Inr (Scalar NaN))"
    proof
      assume "?var = Some (Inl ZeroDivisionError)"
      then show ?thesis using s by (simp add: compute_up_std_def)
    next
      assume "\<exists>r. ?var = Some (Inr (Scalar r))"
      then obtain r where r: "?var = Some (Inr (Scalar r))" by blast
      then have "math_sqrt A r = Inr NaN"
        using s by (auto simp: compute_up_std_of_scalar keepdims_wrap_def split: sum.splits if_splits)
      then show ?thesis using r by (simp add: math_sqrt_nan_iff)
    qed
  next
    assume "?var = Some (Inr (Scalar NaN))"
    then show "?std = Some (Inr (keepdims_wrap expr NaN))"
      by (simp add: compute_up_std_of_scalar math_sqrt_def)
  qed
  have 7: "?std = Some (Inl e)" if "?var = Some (Inl e)" for e
    using that by (simp add: compute_up_std_def)
  show ?thesis
    using 1 2 3 4 5 6 7 by (intro conjI allI impI)
qed

text \<open>
  The \<^verbatim>\<open>int64\<close> array \<open>2\<^sup>3\<^sup>2, 2\<^sup>3\<^sup>2\<close>, whose variance comes out as \<open>- 2\<^sup>6\<^sup>5\<close>, is rejected with
  \<^verbatim>\<open>ValueError\<close>; the ten numbers from one to ten give the root of \<open>55 / 6\<close>.
\<close>

theorem std_sqrt_of_var_witness:
  "compute_up_std int64_arith \<lparr>keepdims = False, unbiased = True\<rparr>
       [Fin (2 ^ 32), Fin (2 ^ 32)] (2 ^ 20)
     = Some (Inl ValueError)
   \<and> compute_up_std exact_arith \<lparr>keepdims = False, unbiased = True\<rparr>
       (map Fin [1, 2, 3, 4, 5, 6, 7, 8, 9, 10]) (2 ^ 20)
     = Some (Inr (Scalar (Fin (sqrt (55 / 6)))))"
proof -
  let ?e = "\<lparr>keepdims = False, unbiased = True\<rparr>"
  let ?xs = "[1, 2, 3, 4, 5, 6, 7, 8, 9, 10 :: real]"
  have c: "child_var ?e = ?e" by (simp add: child_var_def)
  have v1: "compute_up_var int64_arith (child_var ?e) [Fin (2 ^ 32), Fin (2 ^ 32)] (2 ^ 20)
              = Some (Inr (Scalar (Fin (- (2 ^ 65))))) \<and> - (2 ^ 65) < (0 :: real)"
    unfolding c using compute_up_var_int64_overflow [of "2 ^ 20"] by simp
  have "compute_up_var exact_arith ?e (map Fin ?xs) (2 ^ 20)
          = Some (Inr (Scalar (Fin (55 / 6))))"
    using compute_up_var_exact [of ?xs ?e "2 ^ 20"]
    by (simp add: keepdims_wrap_def np_truediv_def exact_arith_def)
  then have v2: "compute_up_var exact_arith (child_var ?e) (map Fin ?xs) (2 ^ 20)
              = Some (Inr (Scalar (Fin (55 / 6)))) \<and> (0 :: real) \<le> 55 / 6"
    unfolding c by simp
  have "compute_up_std int64_arith ?e [Fin (2 ^ 32), Fin (2 ^ 32)] (2 ^ 20) = Some (Inl ValueError)"
    using std_sqrt_of_var [of int64_arith ?e "[Fin (2 ^ 32), Fin (2 ^ 32)]" "2 ^ 20",
        THEN conjunct2, THEN conjunct2, THEN conjunct1, rule_format, OF v1] .
  moreover have "compute_up_std exact_arith ?e (map Fin ?xs) (2 ^ 20)
      = Some (Inr (keepdims_wrap ?e (Fin (float_sqrt exact_arith (55 / 6)))))"
    using std_sqrt_of_var [of exact_arith ?e "map Fin ?xs" "2 ^ 20",
        THEN conjunct2, THEN conjunct2, THEN conjunct2, THEN conjunct2, THEN conjunct1,
        rule_format, OF v2] .
  then have "compute_up_std exact_arith ?e (map Fin ?xs) (2 ^ 20)
      = Some (Inr (Scalar (Fin (sqrt (55 / 6)))))"
    by (simp add: keepdims_wrap_def exact_arith_def)
  ultimately show ?thesis by (intro conjI)
qed

subsection \<open>Empty arrays\<close>

text \<open>
  Claim C9 as stated fails for the mean: on an empty array \<^verbatim>\<open>ba.sum() / ba.len\<close> divides the
  numpy scalar zero by zero, which raises nothing and returns \<^verbatim>\<open>nan\<close>.
\<close>

theorem mean_empty_counterexample:
  "compute_up_mean exact_arith \<lparr>keepdims = False\<rparr> [] = Scalar NaN"
  by (simp add: compute_up_mean_def carray_sum_def carray_len_def np_truediv_def keepdims_wrap_def)

text \<open>
  Claim C9, amended. Over an empty array, in every machine arithmetic, the count and the
  sum are \<open>0\<close> (inside a one-element array when \<^verbatim>\<open>keepdims\<close> is set), the variance and the
  standard deviation raise \<^verbatim>\<open>ZeroDivisionError\<close>, and the mean raises nothing and is \<^verbatim>\<open>nan\<close>.
\<close>

theorem empty_reductions:
  "compute_up_count cexpr [] = keepdims_wrap cexpr 0
   \<and> compute_up_sum A sexpr [] = keepdims_wrap sexpr (Fin 0)
   \<and> compute_up_var A vexpr [] chunksize = Some (Inl ZeroDivisionError)
   \<and> compute_up_std A dexpr [] chunksize = Some (Inl ZeroDivisionError)
   \<and> compute_up_mean A mexpr [] = keepdims_wrap mexpr NaN"
  by (simp add: compute_up_count_def compute_up_sum_def carray_sum_def compute_up_var_empty
      compute_up_std_def compute_up_mean_def carray_len_def np_truediv_def)

subsection \<open>Dispatch and the memory threshold\<close>

lemma compute_up_funcs_lookups:
  "compute_up_funcs (Selection_class, ctable) = Some 74"
  "compute_up_funcs (ReLabel_class, carray) = Some 140"
  "compute_up_funcs (ReLabel_class, ctable) = Some 140"
  "compute_up_funcs (Label_class, carray) = Some 140"
  "compute_up_funcs (Label_class, ctable) = Some 140"
  "compute_up_funcs (Arithmetic_class, carray) = Some 146"
  "compute_up_funcs (Arithmetic_class, ctable) = Some 146"
  "compute_up_funcs (Broadcast_class, carray) = Some 146"
  "compute_up_funcs (Broadcast_class, ctable) = Some 146"
  "compute_up_funcs (ElemWise_class, carray) = Some 146"
  "compute_up_funcs (ElemWise_class, ctable) = Some 146"
  "compute_up_funcs (Distinct_class, carray) = Some 146"
  "compute_up_funcs (Distinct_class, ctable) = Some 146"
  "compute_up_funcs (By_class, carray) = Some 146"
  "compute_up_funcs (By_class, ctable) = Some 146"
  "compute_up_funcs (nunique_class, carray) = Some 153"
  "compute_up_funcs (nunique_class, ctable) = Some 146"
  "compute_up_funcs (Like_class, carray) = Some 146"
  "compute_up_funcs (Like_class, ctable) = Some 146"
  "compute_up_funcs (Reduction_class, carray) = Some 161"
  "compute_up_funcs (Reduction_class, ctable) = Some 161"
  by (simp_all add: compute_up_funcs_def compute_up_defs_def dispatcher_add_def)

text \<open>
  Claim C10. The definition registered for \<^verbatim>\<open>ReLabel\<close> and \<^verbatim>\<open>Label\<close> on a carray or a ctable
  raises \<^verbatim>\<open>NotImplementedError\<close> whatever the expression and the data are, and it is the
  definition the dispatcher holds for each of the four signatures.
\<close>

theorem relabel_not_implemented:
  "compute_up_ReLabel_140 expr b = Inl NotImplementedError
   \<and> compute_up_funcs (ReLabel_class, carray) = Some 140
   \<and> compute_up_funcs (ReLabel_class, ctable) = Some 140
   \<and> compute_up_funcs (Label_class, carray) = Some 140
   \<and> compute_up_funcs (Label_class, ctable) = Some 140"
  by (simp add: compute_up_ReLabel_140_def compute_up_funcs_lookups)

lemma fits_iff: "real n < real a / 4 \<longleftrightarrow> 4 * n < a"
proof -
  have "real n < real a / 4 \<longleftrightarrow> real (4 * n) < real a"
    by (simp add: field_simps)
  then show ?thesis
    by (simp only: of_nat_less_iff)
qed

lemma fits_iff_mult: "real n * 4 < real a \<longleftrightarrow> 4 * n < a"
  using fits_iff [of n a] by (simp add: field_simps)

text \<open>
  Claim C5. Each definition that decides between memory and streaming reads the available
  memory once, at the moment it is called, and takes the data into memory exactly when
  its byte size is strictly below a quarter of that reading, that is when four times the
  size is below the reading. For a selection, and for arithmetic, broadcast, elementwise,
  distinct, group-by, nunique (on a ctable) and like expressions, the result is the
  in-memory computation when the data fits and the streamed one otherwise. For a
  reduction the in-memory computation runs exactly when the data fits; the chunked
  computation follows it, or runs alone, and gives the result.
\<close>

theorem memory_threshold:
  "compute_up_Selection_74 mem cu expr data t =
     (if real (nbytes data) < real (mem t) / 4 then cu expr (InMemory (rows data)) (Suc t)
      else cu expr (Iterator (rows data)) (Suc t))
   \<and> compute_up_ElemWise_146 mem cu expr data t =
     (if real (nbytes data) < real (mem t) / 4 then cu expr (InMemory (rows data)) (Suc t)
      else cu expr (Iterator (rows data)) (Suc t))
   \<and> compute_up_Reduction_161 mem rcu rexpr data t =
     (if real (nbytes data) < real (mem t) / 4
      then (case rcu rexpr (InMemory (rows data)) (Suc t) of
              (Inl e, t') \<Rightarrow> (Inl e, t')
            | (Inr result, t') \<Rightarrow> keep_outcome rexpr (rcu rexpr (ChunkIndexable data) t'))
      else keep_outcome rexpr (rcu rexpr (ChunkIndexable data) (Suc t)))
   \<and> (real (nbytes data) < real (mem t) / 4 \<longleftrightarrow> 4 * nbytes data < mem t)
   \<and> available_memory mem t = (mem t, Suc t)
   \<and> map compute_up_funcs
        [(Selection_class, ctable),
         (Arithmetic_class, carray), (Arithmetic_class, ctable),
         (Broadcast_class, carray), (Broadcast_class, ctable),
         (ElemWise_class, carray), (ElemWise_class, ctable),
         (Distinct_class, carray), (Distinct_class, ctable),
         (By_class, carray), (By_class, ctable),
         (nunique_class, ctable),
         (Like_class, carray), (Like_class, ctable),
         (Reduction_class, carray), (Reduction_class, ctable)]
       = [Some 74, Some 146, Some 146, Some 146, Some 146, Some 146, Some 146, Some 146,
          Some 146, Some 146, Some 146, Some 146, Some 146, Some 146, Some 161, Some 161]"
  by (simp add: compute_up_Selection_74_def compute_up_ElemWise_146_def
      compute_up_Reduction_161_def available_memory_def fits_iff_mult compute_up_funcs_lookups)

text \<open>
  Two decisions one after the other on the same hundred bytes: the first reading leaves
  room and the array is taken into memory, the second does not and the rows are streamed.
  A reduction over data that fits returns what the chunked computation gave.
\<close>

theorem memory_threshold_witness:
  "compute_up_ElemWise_146 (\<lambda>t. if t = 0 then 1000 else 10)
      (\<lambda>e c t. (Inr (case c of InMemory _ \<Rightarrow> ''memory'' | Iterator _ \<Rightarrow> ''stream''
                       | ChunkIndexable _ \<Rightarrow> ''chunks''), t))
      () \<lparr>nbytes = 100, rows = [1, 2, 3 :: int]\<rparr> 0 = (Inr ''memory'', 1)
   \<and> compute_up_ElemWise_146 (\<lambda>t. if t = 0 then 1000 else 10)
      (\<lambda>e c t. (Inr (case c of InMemory _ \<Rightarrow> ''memory'' | Iterator _ \<Rightarrow> ''stream''
                       | ChunkIndexable _ \<Rightarrow> ''chunks''), t))
      () \<lparr>nbytes = 100, rows = [1, 2, 3 :: int]\<rparr> 1 = (Inr ''stream'', 2)
   \<and> compute_up_Reduction_161 (\<lambda>t. 1000)
      (\<lambda>e c t. (Inr (case c of InMemory _ \<Rightarrow> ''memory'' | Iterator _ \<Rightarrow> ''stream''
                       | ChunkIndexable _ \<Rightarrow> ''chunks''), t))
      \<lparr>keepdims = False\<rparr> \<lparr>nbytes = 100, rows = [1, 2, 3 :: int]\<rparr> 0 = (Inr (Scalar ''chunks''), 1)"
proof -
  let ?mem = "\<lambda>t::nat. if t = 0 then 1000 else 10 :: nat"
  let ?d = "\<lparr>nbytes = 100, rows = [1, 2, 3 :: int]\<rparr>"
  show ?thesis
    using memory_threshold [of ?mem "\<lambda>e c t. (Inr (case c of InMemory _ \<Rightarrow> ''memory'' | Iterator _ \<Rightarrow> ''stream''
                       | ChunkIndexable _ \<Rightarrow> ''chunks''), t)" "()" ?d 0
                       "\<lambda>e c t. (Inr (case c of InMemory _ \<Rightarrow> ''memory'' | Iterator _ \<Rightarrow> ''stream''
                       | ChunkIndexable _ \<Rightarrow> ''chunks''), t)" "\<lparr>keepdims = False\<rparr>"]
      memory_threshold [of ?mem "\<lambda>e c t. (Inr (case c of InMemory _ \<Rightarrow> ''memory'' | Iterator _ \<Rightarrow> ''stream''
                       | ChunkIndexable _ \<Rightarrow> ''chunks''), t)" "()" ?d 1
                       "\<lambda>e c t. (Inr (case c of InMemory _ \<Rightarrow> ''memory'' | Iterator _ \<Rightarrow> ''stream''
                       | ChunkIndexable _ \<Rightarrow> ''chunks''), t)" "\<lparr>keepdims = False\<rparr>"]
      memory_threshold [of "\<lambda>t. 1000" "\<lambda>e c t. (Inr (case c of InMemory _ \<Rightarrow> ''memory'' | Iterator _ \<Rightarrow> ''stream''
                       | ChunkIndexable _ \<Rightarrow> ''chunks''), t)" "()" ?d 0
                       "\<lambda>e c t. (Inr (case c of InMemory _ \<Rightarrow> ''memory'' | Iterator _ \<Rightarrow> ''stream''
                       | ChunkIndexable _ \<Rightarrow> ''chunks''), t)" "\<lparr>keepdims = False\<rparr>"]
    by (simp add: keep_outcome_def keepdims_wrap_def)
qed




subsection \<open>The direct computation of a cheap head\<close>

lemma leaves_nonempty: "leaves expr \<noteq> []"
  by (induction expr) simp_all

lemma hd_path: "hd (path expr b) = expr"
  by (cases expr) simp_all

lemma path_nonempty: "path expr b \<noteq> []"
  by (cases expr) simp_all

lemma last_path_leaf: "last (path expr (hd (leaves expr))) = hd (leaves expr)"
  by (induction expr) (simp_all add: path_nonempty)

text \<open>
  Claim C6. An expression has a leaf, and the path from the expression to its first leaf
  starts at the expression and ends at the leaf. When every node on that path is of one
  of the cheap classes (head, elementwise, selection, distinct, symbol), the fast path
  hands the whole expression to the generic evaluator once, with the leaf bound to an
  iterator over all the rows: nothing is split into chunks, and what the evaluator gives
  is the result. Otherwise it raises \<^verbatim>\<open>MDNotImplementedError\<close>, the dispatcher's signal to
  try the next definition, and nothing else.
\<close>

theorem head_cheap_path:
  "leaves expr \<noteq> []
   \<and> hd (path expr (hd (leaves expr))) = expr
   \<and> last (path expr (hd (leaves expr))) = hd (leaves expr)
   \<and> compute_down_Head evaluator expr data =
       (if \<forall>e \<in> set (path expr (hd (leaves expr))).
             class_of e \<in> {Head_class, ElemWise_class, Selection_class, Distinct_class, Symbol_class}
        then evaluator expr [(hd (leaves expr), Iterator (rows data))]
        else Inl MDNotImplementedError)"
proof -
  obtain leaf rest where l: "leaves expr = leaf # rest"
    using leaves_nonempty [of expr] by (cases "leaves expr") auto
  have "compute_down_Head evaluator expr data =
       (if \<forall>e \<in> set (path expr (hd (leaves expr))).
             class_of e \<in> {Head_class, ElemWise_class, Selection_class, Distinct_class, Symbol_class}
        then evaluator expr [(hd (leaves expr), Iterator (rows data))]
        else Inl MDNotImplementedError)"
    by (auto simp: compute_down_Head_def l list_all_iff isinstance_def Cheap_def)
  then show ?thesis
    using leaves_nonempty [of expr] hd_path [of expr] last_path_leaf [of expr] by simp
qed

text \<open>
  The head of a distinct selection over an elementwise map is evaluated on the iterator;
  the head of a sum is not cheap.
\<close>

theorem head_cheap_path_witness:
  "compute_down_Head (\<lambda>e b. Inr (map snd b))
      (Head 2 (Distinct (Selection (\<lambda>x. 1 < x) (ElemWise (\<lambda>x. x + 1) (Symbol ''t'')))))
      \<lparr>nbytes = 40, rows = [1, 1, 2, 2, 3 :: int]\<rparr>
     = Inr [Iterator [1, 1, 2, 2, 3]]
   \<and> compute_down_Head (\<lambda>e b. Inr (map snd b))
      (Head 2 (sum_expr True (Symbol ''t''))) \<lparr>nbytes = 40, rows = [1, 1, 2, 2, 3 :: int]\<rparr>
     = Inl MDNotImplementedError"
proof -
  let ?d = "\<lparr>nbytes = 40, rows = [1, 1, 2, 2, 3 :: int]\<rparr>"
  let ?c = "\<lambda>(e :: int expr) (b :: (int expr \<times> int container) list). Inr (map snd b) :: error + int container list"
  have "compute_down_Head ?c
      (Head 2 (Distinct (Selection (\<lambda>x. 1 < x) (ElemWise (\<lambda>x. x + 1) (Symbol ''t''))))) ?d
     = Inr [Iterator [1, 1, 2, 2, 3]]"
    using head_cheap_path [of "Head 2 (Distinct (Selection (\<lambda>x. 1 < x) (ElemWise (\<lambda>x. x + 1) (Symbol ''t''))))" ?c ?d]
    by simp
  moreover have "compute_down_Head ?c (Head 2 (sum_expr True (Symbol ''t''))) ?d
     = Inl MDNotImplementedError"
    using head_cheap_path [of "Head 2 (sum_expr True (Symbol ''t''))" ?c ?d]
    by simp
  ultimately show ?thesis by (intro conjI)
qed

subsection \<open>Merging chunk results\<close>

text \<open>
  The merge of a non-empty list follows the shape of its first element: arrays are
  concatenated, frames are joined row by row, sequences are flattened in order. A list
  of one array, frame or sequence gives that element back.
\<close>

lemma map_raise_total: "map_raise (\<lambda>x. Inr (g x)) xs = Inr (map g xs)"
  by (induction xs) simp_all

lemma map_raise_cong_total:
  assumes "\<And>x. x \<in> set xs \<Longrightarrow> f x = Inr (g x)"
  shows "map_raise f xs = Inr (map g xs)"
  using assms by (induction xs) simp_all

lemma merge_parts_arrays:
  assumes "xss \<noteq> []"
  shows "merge_parts (map NdArray xss) = Inr (NdArray (concat xss))"
proof -
  obtain xs rest where x: "xss = xs # rest"
    using assms by (cases xss) auto
  have "map_raise array_like (map NdArray xss) = Inr xss"
    by (induction xss) simp_all
  then show ?thesis
    by (simp add: merge_parts_def np_concatenate_def x)
qed

lemma merge_parts_frames:
  "merge_parts (DataFrame cols rs # map (DataFrame cols) rss)
     = Inr (DataFrame cols (concat (rs # rss)))"
proof -
  have "map_raise frame_rows (map (DataFrame cols) rss) = Inr rss"
    by (induction rss) simp_all
  then show ?thesis
    by (simp add: merge_parts_def pd_concat_def)
qed

lemma merge_parts_sequences:
  "merge_parts (Sequence xs # map Sequence xss) = Inr (Sequence (concat (xs # xss)))"
proof -
  have "map_raise iterate (map Sequence xss) = Inr xss"
    by (induction xss) simp_all
  then show ?thesis
    by (simp add: merge_parts_def list_concat_def)
qed

lemma merge_parts_single:
  "merge_parts [NdArray xs] = Inr (NdArray xs)"
  "merge_parts [DataFrame cols rs] = Inr (DataFrame cols rs)"
  "merge_parts [Sequence xs] = Inr (Sequence xs)"
  "merge_parts [Number x] = Inl UnboundLocalError"
  by (simp_all add: merge_parts_def np_concatenate_def pd_concat_def list_concat_def)

text \<open>
  Claim C7 at the empty list of chunk results, which an empty source gives: the merge
  reads \<^verbatim>\<open>parts[0]\<close> and raises \<^verbatim>\<open>IndexError\<close>; no empty value is returned.
\<close>

theorem merge_parts_empty:
  "merge_parts ([] :: real pyobj list) = Inl IndexError"
  by (simp add: merge_parts_def)

subsection \<open>The chunked computation against the direct one\<close>

text \<open>
  The chunked computation with the splitter, the planner and the evaluator modelled from
  the spec. On a non-empty source and for a chunk size of at least one, the chunked sum,
  count and distinct-count of a map-like transform of the data are what the evaluator
  gives on the whole data (\<open>chunked_equals_direct\<close>), and two chunk sizes give the same
  result on every source (\<open>chunksize_independent\<close>).
\<close>

lemma compute_map_like:
  assumes "map_like t"
  shows "compute t [(hd (leaves t), NdArray xs)] = Inr (NdArray (transform t xs))"
  using assms by (induction t) (simp_all add: on_elements_def)

lemma compute_subs:
  assumes "map_like t"
  shows "compute (subs (hd (leaves t)) (Symbol c) t) [(Symbol c, NdArray xs)]
           = Inr (NdArray (transform t xs))"
  using assms by (induction t) (simp_all add: on_elements_def)

lemma transform_append: "transform t (xs @ ys) = transform t xs @ transform t ys"
  by (induction t) simp_all

lemma transform_Nil: "transform t [] = []"
  by (induction t) simp_all

lemma transform_concat: "transform t (concat xss) = concat (map (transform t) xss)"
  by (induction xss) (simp_all add: transform_append transform_Nil)

lemma getslice_chunk_range:
  "getslice b (fst (chunk_range (length b) c i)) (snd (chunk_range (length b) c i)) = get_chunk b i c"
  by (simp add: getslice_nth get_chunk_def chunk_range_def slice_indices_def Let_def)

lemma partitions_nonempty:
  assumes "0 < c" "rows data \<noteq> []"
  shows "partitions data c \<noteq> []"
proof -
  have "c \<le> length (rows data) + c - 1"
    using assms by (cases "rows data") simp_all
  then have "0 < (length (rows data) + c - 1) div c"
    using assms(1) by (simp add: div_greater_zero_iff)
  then show ?thesis
    by (simp add: partitions_def)
qed

lemma partitions_empty: "rows data = [] \<Longrightarrow> 0 < c \<Longrightarrow> partitions data c = []"
  by (simp add: partitions_def)

lemma concat_partitions:
  assumes "0 < c"
  shows "concat (map (\<lambda>p. getslice (rows data) (fst p) (snd p)) (partitions data c)) = rows data"
proof -
  let ?b = "rows data"
  let ?m = "(length ?b + c - 1) div c"
  have "length ?b + c - 1 < Suc ?m * c"
    using assms by (metis dividend_less_div_times mult.commute mult_Suc)
  then have "length ?b \<le> ?m * c" using assms by simp
  then have "concat (map (\<lambda>i. get_chunk ?b i c) [0..<?m]) = ?b"
    by (simp add: concat_get_chunks)
  then show ?thesis
    by (simp add: partitions_def o_def getslice_chunk_range)
qed

lemma chunk_results:
  assumes "\<And>xs. compute chunk_expr [(chunk, NdArray xs)] = Inr (NdArray (g xs))"
  shows "map_raise (compute_chunk compute data chunk chunk_expr) ps
           = Inr (map (\<lambda>p. NdArray (g (getslice (rows data) (fst p) (snd p)))) ps)"
  by (rule map_raise_cong_total) (simp add: compute_chunk_def assms)


lemma compute_down_general:
  assumes c: "0 < c" and ne: "rows data \<noteq> []"
    and sp: "split (hd (leaves expr)) expr (Symbol ''chunk'')
               = ((Symbol ''chunk'', chunk_expr), (agg, agg_expr))"
    and ch: "\<And>xs. compute chunk_expr [(Symbol ''chunk'', NdArray xs)] = Inr (NdArray (g xs))"
  shows "compute_down split partitions compute expr data c =
           compute agg_expr
             [(agg, NdArray (concat (map (\<lambda>p. g (getslice (rows data) (fst p) (snd p)))
                                      (partitions data c))))]"
proof -
  obtain leaf rest where l: "leaves expr = leaf # rest"
    using leaves_nonempty [of expr] by (cases "leaves expr") auto
  let ?ps = "partitions data c"
  let ?xss = "map (\<lambda>p. g (getslice (rows data) (fst p) (snd p))) ?ps"
  have parts: "map_raise (compute_chunk compute data (Symbol ''chunk'') chunk_expr) ?ps
                 = Inr (map NdArray ?xss)"
    using chunk_results [of chunk_expr "Symbol ''chunk''" g data ?ps, OF ch]
    by (simp add: o_def)
  have "?xss \<noteq> []"
    using partitions_nonempty [OF c ne] by simp
  then have merged: "merge_parts (map NdArray ?xss) = Inr (NdArray (concat ?xss))"
    by (rule merge_parts_arrays)
  have sp': "split leaf expr (Symbol ''chunk'') = ((Symbol ''chunk'', chunk_expr), (agg, agg_expr))"
    using sp l by simp
  show ?thesis
    unfolding compute_down_def l
    by (simp only: list.case sp' prod.case Let_def parts sum.case merged)
qed

lemma compute_down_empty:
  assumes "0 < c" "rows data = []"
  shows "compute_down split partitions compute expr data c = Inl IndexError"
proof -
  obtain leaf rest where l: "leaves expr = leaf # rest"
    using leaves_nonempty [of expr] by (cases "leaves expr") auto
  obtain ch ce ag ae where sp: "split leaf expr (Symbol ''chunk'') = ((ch, ce), (ag, ae))"
    by (metis surj_pair)
  show ?thesis
    using assms by (simp add: compute_down_def l sp partitions_def merge_parts_def del: split.simps)
qed

lemma sum_list_chunk_sums:
  "sum_list (concat (map (\<lambda>p. [sum_list (h p)]) ps)) = sum_list (concat (map h ps))"
  by (induction ps) simp_all

lemma sum_list_chunk_counts:
  "sum_list (concat (map (\<lambda>p. [real (length (h p))]) ps)) = real (length (concat (map h ps)))"
  by (induction ps) simp_all

lemma remdups_chunk_distinct:
  "length (remdups (concat (map (\<lambda>p. remdups (h p)) ps))) = length (remdups (concat (map h ps)))"
proof -
  have "set (concat (map (\<lambda>p. remdups (h p)) ps)) = set (concat (map h ps))"
    by simp
  then show ?thesis
    by (simp only: length_remdups_card_conv)
qed

lemma transform_partitions:
  assumes "0 < c"
  shows "concat (map (\<lambda>p. transform t (getslice (rows data) (fst p) (snd p))) (partitions data c))
           = transform t (rows data)"
proof -
  have "concat (map (\<lambda>p. transform t (getslice (rows data) (fst p) (snd p))) (partitions data c))
          = transform t (concat (map (\<lambda>p. getslice (rows data) (fst p) (snd p)) (partitions data c)))"
    by (simp add: transform_concat o_def)
  then show ?thesis
    by (simp only: concat_partitions [OF assms])
qed

lemma compute_agg_sum:
  "compute (sum_expr kd agg_symbol) [(agg_symbol, NdArray ys)] = Inr (keep kd (sum_list ys))"
  by (simp add: agg_symbol_def on_elements_def)

lemma compute_agg_nunique:
  "compute (nunique_expr kd agg_symbol) [(agg_symbol, NdArray ys)]
     = Inr (keep kd (real (length (remdups ys))))"
  by (simp add: agg_symbol_def on_elements_def)

lemma compute_down_sum:
  assumes "0 < c" "rows data \<noteq> []" "map_like t"
  shows "compute_down split partitions compute (sum_expr kd t) data c
           = Inr (keep kd (sum_list (transform t (rows data))))"
proof -
  let ?g = "\<lambda>xs. [sum_list (transform t xs)]"
  have ch: "compute (sum_expr True (subs (hd (leaves t)) (Symbol ''chunk'') t))
              [(Symbol ''chunk'', NdArray xs)] = Inr (NdArray (?g xs))" for xs
    using compute_subs [OF assms(3), of "''chunk''" xs] by (simp add: on_elements_def keep_def)
  have "compute_down split partitions compute (sum_expr kd t) data c =
          compute (sum_expr kd agg_symbol)
            [(agg_symbol, NdArray (concat (map (\<lambda>p. ?g (getslice (rows data) (fst p) (snd p)))
                                            (partitions data c))))]"
    by (rule compute_down_general [OF assms(1,2) _ ch]) simp
  also have "\<dots> = Inr (keep kd (sum_list (concat (map (\<lambda>p. transform t (getslice (rows data) (fst p) (snd p)))
                                                      (partitions data c)))))"
    by (simp only: compute_agg_sum sum_list_chunk_sums)
  finally show ?thesis
    by (simp only: transform_partitions [OF assms(1)])
qed

lemma compute_down_count:
  assumes "0 < c" "rows data \<noteq> []" "map_like t"
  shows "compute_down split partitions compute (count_expr kd t) data c
           = Inr (keep kd (real (length (transform t (rows data)))))"
proof -
  let ?g = "\<lambda>xs. [real (length (transform t xs))]"
  have ch: "compute (count_expr True (subs (hd (leaves t)) (Symbol ''chunk'') t))
              [(Symbol ''chunk'', NdArray xs)] = Inr (NdArray (?g xs))" for xs
    using compute_subs [OF assms(3), of "''chunk''" xs] by (simp add: on_elements_def keep_def)
  have "compute_down split partitions compute (count_expr kd t) data c =
          compute (sum_expr kd agg_symbol)
            [(agg_symbol, NdArray (concat (map (\<lambda>p. ?g (getslice (rows data) (fst p) (snd p)))
                                            (partitions data c))))]"
    by (rule compute_down_general [OF assms(1,2) _ ch]) simp
  also have "\<dots> = Inr (keep kd (real (length (concat (map (\<lambda>p. transform t (getslice (rows data) (fst p) (snd p)))
                                                      (partitions data c))))))"
    by (simp only: compute_agg_sum sum_list_chunk_counts)
  finally show ?thesis
    by (simp only: transform_partitions [OF assms(1)])
qed

lemma compute_down_nunique:
  assumes "0 < c" "rows data \<noteq> []" "map_like t"
  shows "compute_down split partitions compute (nunique_expr kd t) data c
           = Inr (keep kd (real (length (remdups (transform t (rows data))))))"
proof -
  let ?g = "\<lambda>xs. remdups (transform t xs)"
  have ch: "compute (Distinct (subs (hd (leaves t)) (Symbol ''chunk'') t))
              [(Symbol ''chunk'', NdArray xs)] = Inr (NdArray (?g xs))" for xs
    using compute_subs [OF assms(3), of "''chunk''" xs] by (simp add: on_elements_def)
  have "compute_down split partitions compute (nunique_expr kd t) data c =
          compute (nunique_expr kd agg_symbol)
            [(agg_symbol, NdArray (concat (map (\<lambda>p. ?g (getslice (rows data) (fst p) (snd p)))
                                            (partitions data c))))]"
    by (rule compute_down_general [OF assms(1,2) _ ch]) simp
  also have "\<dots> = Inr (keep kd (real (length (remdups (concat (map (\<lambda>p. transform t (getslice (rows data) (fst p) (snd p)))
                                                      (partitions data c)))))))"
    by (simp only: compute_agg_nunique remdups_chunk_distinct)
  finally show ?thesis
    by (simp only: transform_partitions [OF assms(1)])
qed

lemma chunked_equals_direct:
  assumes "0 < c" "rows data \<noteq> []" "map_like t"
    and "expr = sum_expr kd t \<or> expr = count_expr kd t \<or> expr = nunique_expr kd t"
  shows "compute_down split partitions compute expr data c
           = compute expr [(hd (leaves expr), NdArray (rows data))]"
  using assms(4) compute_down_sum [OF assms(1-3)] compute_down_count [OF assms(1-3)]
    compute_down_nunique [OF assms(1-3)] compute_map_like [OF assms(3), of "rows data"]
  by (auto simp: on_elements_def)

lemma chunksize_independent:
  assumes "0 < c1" "0 < c2" "map_like t"
    and "expr = sum_expr kd t \<or> expr = count_expr kd t \<or> expr = nunique_expr kd t"
  shows "compute_down split partitions compute expr data c1
           = compute_down split partitions compute expr data c2"
proof (cases "rows data = []")
  case True
  then show ?thesis
    using assms(1,2) by (simp add: compute_down_empty)
next
  case False
  then show ?thesis
    using chunked_equals_direct [OF assms(1) False assms(3,4)]
      chunked_equals_direct [OF assms(2) False assms(3,4)] by simp
qed

text \<open>
  Claim C1 at the empty dataset: the plan has no partition, the list of chunk results is
  empty, and the merge raises \<^verbatim>\<open>IndexError\<close> on \<^verbatim>\<open>parts[0]\<close>, while the sum evaluated directly
  over the empty dataset is \<open>0\<close>.
\<close>

theorem chunked_empty_dataset:
  "compute_down split partitions compute (sum_expr False (Symbol ''t'')) \<lparr>nbytes = 0, rows = []\<rparr> (2 ^ 20)
     = Inl IndexError
   \<and> compute (sum_expr False (Symbol ''t'')) [(Symbol ''t'', NdArray [])] = Inr (Number 0)"
  by (simp add: compute_down_def partitions_def merge_parts_def on_elements_def keep_def)

end
